theory Spec2Isabelle
  imports Main "HOL-Library.Word"
begin

section \<open>Memory, allocator and template parameters\<close>

text \<open>
  The fixed-size arrays of \<^verbatim>\<open>src/util/array.h\<close> live in raw memory: one \<^verbatim>\<open>size_t\<close>
  header directly followed by the elements, the handle \<^verbatim>\<open>m_data\<close> pointing at the first
  element. Memory is an explicit store from addresses to the object that starts there.
  Addresses are byte addresses; the null pointer is \<open>0\<close>. The walks of the class over
  its own block (\<^verbatim>\<open>begin()\<close> to \<^verbatim>\<open>end()\<close>) add exactly, and a pointer moved below address
  0 is a \<open>Fault\<close>; indexing with a caller's index wraps at \<open>2^64\<close> as the machine does.
  \<^verbatim>\<open>size_t\<close> is the 64-bit unsigned type of an LP64 target, whose arithmetic wraps.
\<close>

type_synonym addr = nat
type_synonym size_t = "64 word"

definition sizeof_size_t :: nat where
  "sizeof_size_t = 8"

datatype error = AssertionViolation | AllocationFailure | Fault

text \<open>A cell holds a \<^verbatim>\<open>size_t\<close> object or a live object of the element type \<^verbatim>\<open>T\<close>.\<close>

datatype 'a cell = Hdr size_t | Obj 'a

text \<open>
  What the outside observes of a run: constructor and destructor calls on elements and
  the calls made to the allocator, in program order.
\<close>

datatype 'a event =
    Construct addr 'a
  | Destruct addr 'a
  | Allocate size_t
  | Deallocate size_t addr

record ('a, 's) world =
  heap :: "addr \<Rightarrow> 'a cell option"
  alloc_state :: 's
  trace :: "'a event list"

text \<open>
  The \<^verbatim>\<open>Allocator\<close> template parameter: any type with \<^verbatim>\<open>allocate(bytes)\<close> and
  \<^verbatim>\<open>deallocate(n, ptr)\<close>. A failed allocation (an exception) is \<open>None\<close>.
\<close>

record 's Allocator =
  a_allocate :: "size_t \<Rightarrow> 's \<Rightarrow> addr option \<times> 's"
  a_deallocate :: "size_t \<Rightarrow> addr \<Rightarrow> 's \<Rightarrow> 's"

text \<open>
  The template parameters \<^verbatim>\<open>T\<close> (its size and the value \<^verbatim>\<open>T()\<close>) and
  \<^verbatim>\<open>CallDestructors\<close>, and the build mode.

  Modelled from the spec: the macros \<^verbatim>\<open>SASSERT\<close> and \<^verbatim>\<open>DEBUG_CODE\<close> are not defined in
  \<^verbatim>\<open>array.h\<close>. A contract violation is "checked in debug builds" only: with \<open>DEBUG\<close>
  set, \<^verbatim>\<open>SASSERT(c)\<close> evaluates \<open>c\<close> and stops with \<open>AssertionViolation\<close> when it is
  false, and \<^verbatim>\<open>DEBUG_CODE(s)\<close> runs \<open>s\<close>; without it both are empty.
\<close>

record 'a params =
  sizeof_T :: nat
  default_T :: 'a
  CallDestructors :: bool
  DEBUG :: bool

record array =
  m_data :: addr

type_synonym ('a, 's) step = "((error + unit) \<times> ('a, 's) world) option"
type_synonym ('a, 's) member = "((error + unit) \<times> array \<times> ('a, 's) world) option"

text \<open>Pointer arithmetic \<^verbatim>\<open>p + k\<close> on objects of \<open>sz\<close> bytes; \<open>k\<close> may be negative.\<close>

definition ptr_add :: "addr \<Rightarrow> int \<Rightarrow> nat \<Rightarrow> addr option" where
  "ptr_add p k sz =
     (if 0 \<le> int p + k * int sz then Some (nat (int p + k * int sz)) else None)"

text \<open>
  Modelled from the spec: the macro \<^verbatim>\<open>SIZE_IDX\<close> used by \<^verbatim>\<open>size()\<close> is not defined in
  \<^verbatim>\<open>array.h\<close> (which defines \<^verbatim>\<open>ARRAY_SIZE_IDX\<close> as \<open>-1\<close>); \<^verbatim>\<open>size()\<close> "reads the
  header", the \<^verbatim>\<open>size_t\<close> immediately preceding the first element.
\<close>

definition SIZE_IDX :: int where
  "SIZE_IDX = -1"

definition ARRAY_SIZE_IDX :: int where
  "ARRAY_SIZE_IDX = -1"

section \<open>The class \<^verbatim>\<open>array<T, CallDestructors>\<close>\<close>

definition space :: "'a params \<Rightarrow> size_t \<Rightarrow> size_t" where
  "space c sz = word_of_nat (sizeof_T c) * sz + word_of_nat sizeof_size_t"

definition empty_array :: "array \<Rightarrow> bool" where
  "empty_array h = (m_data h = 0)"

definition size_array :: "array \<Rightarrow> ('a, 's) world \<Rightarrow> error + size_t" where
  "size_array h w =
     (if m_data h = 0 then Inr 0
      else (case ptr_add (m_data h) SIZE_IDX sizeof_size_t of
              None \<Rightarrow> Inl Fault
            | Some p \<Rightarrow> (case heap w p of Some (Hdr n) \<Rightarrow> Inr n | _ \<Rightarrow> Inl Fault)))"

definition begin_array :: "array \<Rightarrow> addr" where
  "begin_array h = m_data h"

definition end_array :: "'a params \<Rightarrow> array \<Rightarrow> ('a, 's) world \<Rightarrow> error + addr" where
  "end_array c h w =
     (case size_array h w of
        Inl e \<Rightarrow> Inl e
      | Inr n \<Rightarrow> Inr (m_data h + unat n * sizeof_T c))"

definition c_ptr :: "array \<Rightarrow> addr" where
  "c_ptr h = m_data h"

definition raw_ptr :: "array \<Rightarrow> addr option" where
  "raw_ptr h = ptr_add (m_data h) (-1) sizeof_size_t"

subsection \<open>The element loops\<close>

text \<open>
  Each loop is \<^verbatim>\<open>for (; it != e; ++it)\<close> on element pointers. Running a destructor
  (or reading \<^verbatim>\<open>*vs\<close>) where no element lives is undefined behaviour: \<open>Fault\<close>.
\<close>

partial_function (option) destroy_loop ::
  "'a params \<Rightarrow> addr \<Rightarrow> addr \<Rightarrow> ('a, 's) world \<Rightarrow> ('a, 's) step" where
  "destroy_loop c it e w =
     (if it \<noteq> e then
        (case heap w it of
           Some (Obj v) \<Rightarrow>
             destroy_loop c (it + sizeof_T c) e
               (w\<lparr>heap := (heap w)(it := None), trace := trace w @ [Destruct it v]\<rparr>)
         | _ \<Rightarrow> Some (Inl Fault, w))
      else Some (Inr (), w))"

definition destroy_elements :: "'a params \<Rightarrow> array \<Rightarrow> ('a, 's) world \<Rightarrow> ('a, 's) step" where
  "destroy_elements c h w =
     (let it = begin_array h in
      case end_array c h w of
        Inl err \<Rightarrow> Some (Inl err, w)
      | Inr e \<Rightarrow> destroy_loop c it e w)"

partial_function (option) init_loop ::
  "'a params \<Rightarrow> addr \<Rightarrow> addr \<Rightarrow> ('a, 's) world \<Rightarrow> ('a, 's) step" where
  "init_loop c it e w =
     (if it \<noteq> e then
        init_loop c (it + sizeof_T c) e
          (w\<lparr>heap := (heap w)(it \<mapsto> Obj (default_T c)),
             trace := trace w @ [Construct it (default_T c)]\<rparr>)
      else Some (Inr (), w))"

definition init :: "'a params \<Rightarrow> array \<Rightarrow> ('a, 's) world \<Rightarrow> ('a, 's) step" where
  "init c h w =
     (let it = begin_array h in
      case end_array c h w of
        Inl err \<Rightarrow> Some (Inl err, w)
      | Inr e \<Rightarrow> init_loop c it e w)"

partial_function (option) init_copy_loop ::
  "'a params \<Rightarrow> addr \<Rightarrow> addr \<Rightarrow> addr \<Rightarrow> ('a, 's) world \<Rightarrow> ('a, 's) step" where
  "init_copy_loop c it e vs w =
     (if it \<noteq> e then
        (case heap w vs of
           Some (Obj v) \<Rightarrow>
             init_copy_loop c (it + sizeof_T c) e (vs + sizeof_T c)
               (w\<lparr>heap := (heap w)(it \<mapsto> Obj v), trace := trace w @ [Construct it v]\<rparr>)
         | _ \<Rightarrow> Some (Inl Fault, w))
      else Some (Inr (), w))"

definition init_copy :: "'a params \<Rightarrow> array \<Rightarrow> addr \<Rightarrow> ('a, 's) world \<Rightarrow> ('a, 's) step" where
  "init_copy c h vs w =
     (let it = begin_array h in
      case end_array c h w of
        Inl err \<Rightarrow> Some (Inl err, w)
      | Inr e \<Rightarrow> init_copy_loop c it e vs w)"

subsection \<open>Creation\<close>

definition set_data :: "addr \<Rightarrow> size_t \<Rightarrow> array \<Rightarrow> ('a, 's) world \<Rightarrow> array \<times> ('a, 's) world" where
  "set_data mem sz h w =
     (h\<lparr>m_data := mem + sizeof_size_t\<rparr>, w\<lparr>heap := (heap w)(mem \<mapsto> Hdr sz)\<rparr>)"

definition allocate ::
  "'a params \<Rightarrow> 's Allocator \<Rightarrow> size_t \<Rightarrow> array \<Rightarrow> ('a, 's) world
     \<Rightarrow> (error + unit) \<times> array \<times> ('a, 's) world" where
  "allocate c a sz h w =
     (let w1 = w\<lparr>alloc_state := snd (a_allocate a (space c sz) (alloc_state w)),
                 trace := trace w @ [Allocate (space c sz)]\<rparr>
      in case fst (a_allocate a (space c sz) (alloc_state w)) of
           None \<Rightarrow> (Inl AllocationFailure, h, w1)
         | Some mem \<Rightarrow> (Inr (), set_data mem sz h w1))"

definition lift_step :: "array \<Rightarrow> ('a, 's) step \<Rightarrow> ('a, 's) member" where
  "lift_step h r = (case r of None \<Rightarrow> None | Some (res, w) \<Rightarrow> Some (res, h, w))"

definition set_mem ::
  "'a params \<Rightarrow> addr \<Rightarrow> size_t \<Rightarrow> addr \<Rightarrow> array \<Rightarrow> ('a, 's) world \<Rightarrow> ('a, 's) member" where
  "set_mem c mem sz vs h w =
     (if DEBUG c \<and> \<not> (m_data h = 0) then Some (Inl AssertionViolation, h, w)
      else (case set_data mem sz h w of
              (h1, w1) \<Rightarrow> lift_step h1 (init_copy c h1 vs w1)))"

definition set_alloc ::
  "'a params \<Rightarrow> 's Allocator \<Rightarrow> size_t \<Rightarrow> addr \<Rightarrow> array \<Rightarrow> ('a, 's) world
     \<Rightarrow> ('a, 's) member" where
  "set_alloc c a sz vs h w =
     (if DEBUG c \<and> \<not> (m_data h = 0) then Some (Inl AssertionViolation, h, w)
      else (case allocate c a sz h w of
              (Inl err, h1, w1) \<Rightarrow> Some (Inl err, h1, w1)
            | (Inr _, h1, w1) \<Rightarrow> lift_step h1 (init_copy c h1 vs w1)))"

text \<open>
  Constructors start from the indeterminate storage \<open>h0\<close> of the new handle;
  \<^verbatim>\<open>DEBUG_CODE(m_data = 0;)\<close> clears it in debug builds only.
\<close>

definition DEBUG_CODE_clear :: "'a params \<Rightarrow> array \<Rightarrow> array" where
  "DEBUG_CODE_clear c h0 = (if DEBUG c then h0\<lparr>m_data := 0\<rparr> else h0)"

definition array_default :: "array \<Rightarrow> array" where
  "array_default h0 = h0\<lparr>m_data := 0\<rparr>"

definition array_mem_vs ::
  "'a params \<Rightarrow> addr \<Rightarrow> size_t \<Rightarrow> addr \<Rightarrow> array \<Rightarrow> ('a, 's) world \<Rightarrow> ('a, 's) member" where
  "array_mem_vs c mem sz vs h0 w = set_mem c mem sz vs (DEBUG_CODE_clear c h0) w"

definition array_mem_init ::
  "'a params \<Rightarrow> addr \<Rightarrow> size_t \<Rightarrow> bool \<Rightarrow> array \<Rightarrow> ('a, 's) world \<Rightarrow> ('a, 's) member" where
  "array_mem_init c mem sz init_mem h0 w =
     (case set_data mem sz (DEBUG_CODE_clear c h0) w of
        (h1, w1) \<Rightarrow>
          if init_mem then lift_step h1 (init c h1 w1) else Some (Inr (), h1, w1))"

definition array_alloc_vs ::
  "'a params \<Rightarrow> 's Allocator \<Rightarrow> size_t \<Rightarrow> addr \<Rightarrow> array \<Rightarrow> ('a, 's) world
     \<Rightarrow> ('a, 's) member" where
  "array_alloc_vs c a sz vs h0 w = set_alloc c a sz vs (DEBUG_CODE_clear c h0) w"

definition array_alloc_init ::
  "'a params \<Rightarrow> 's Allocator \<Rightarrow> size_t \<Rightarrow> bool \<Rightarrow> array \<Rightarrow> ('a, 's) world
     \<Rightarrow> ('a, 's) member" where
  "array_alloc_init c a sz init_mem h0 w =
     (case allocate c a sz (DEBUG_CODE_clear c h0) w of
        (Inl err, h1, w1) \<Rightarrow> Some (Inl err, h1, w1)
      | (Inr _, h1, w1) \<Rightarrow>
          if init_mem then lift_step h1 (init c h1 w1) else Some (Inr (), h1, w1))"

subsection \<open>Teardown\<close>

definition array_dtor :: "'a params \<Rightarrow> array \<Rightarrow> ('a, 's) world \<Rightarrow> ('a, 's) member" where
  "array_dtor c h w =
     (if m_data h \<noteq> 0 \<and> CallDestructors c then lift_step h (destroy_elements c h w)
      else Some (Inr (), h, w))"

definition finalize ::
  "'a params \<Rightarrow> 's Allocator \<Rightarrow> array \<Rightarrow> ('a, 's) world \<Rightarrow> ('a, 's) member" where
  "finalize c a h w =
     (if m_data h \<noteq> 0 then
        (case (if CallDestructors c then destroy_elements c h w else Some (Inr (), w)) of
           None \<Rightarrow> None
         | Some (Inl err, w1) \<Rightarrow> Some (Inl err, h, w1)
         | Some (Inr _, w1) \<Rightarrow>
             (case size_array h w1 of
                Inl err \<Rightarrow> Some (Inl err, h, w1)
              | Inr n \<Rightarrow>
                  (case raw_ptr h of
                     None \<Rightarrow> Some (Inl Fault, h, w1)
                   | Some p \<Rightarrow>
                       Some (Inr (), h\<lparr>m_data := 0\<rparr>,
                             w1\<lparr>alloc_state := a_deallocate a n p (alloc_state w1),
                                trace := trace w1 @ [Deallocate n p]\<rparr>))))
      else Some (Inr (), h, w))"

subsection \<open>Element access\<close>

text \<open>
  \<^verbatim>\<open>operator[]\<close> returns a reference: the address of the element. \<^verbatim>\<open>SASSERT\<close> checks
  its condition in debug builds and is empty otherwise. The index is whatever \<^verbatim>\<open>size_t\<close>
  the caller passes, so \<^verbatim>\<open>m_data[idx]\<close> is taken as the machine computes it: the byte
  offset is added to the pointer modulo \<open>2^64\<close>.
\<close>

definition index_ptr :: "addr \<Rightarrow> size_t \<Rightarrow> nat \<Rightarrow> addr" where
  "index_ptr p idx sz = (p + unat idx * sz) mod 2 ^ 64"

definition subscript :: "'a params \<Rightarrow> array \<Rightarrow> size_t \<Rightarrow> ('a, 's) world \<Rightarrow> error + addr" where
  "subscript c h idx w =
     (if DEBUG c then
        (case size_array h w of
           Inl err \<Rightarrow> Inl err
         | Inr n \<Rightarrow>
             if idx < n then Inr (index_ptr (m_data h) idx (sizeof_T c))
             else Inl AssertionViolation)
      else Inr (index_ptr (m_data h) idx (sizeof_T c)))"

definition load :: "('a, 's) world \<Rightarrow> addr \<Rightarrow> error + 'a" where
  "load w p = (case heap w p of Some (Obj v) \<Rightarrow> Inr v | _ \<Rightarrow> Inl Fault)"

definition store :: "('a, 's) world \<Rightarrow> addr \<Rightarrow> 'a \<Rightarrow> error + ('a, 's) world" where
  "store w p v =
     (case heap w p of
        Some (Obj _) \<Rightarrow> Inr (w\<lparr>heap := (heap w)(p \<mapsto> Obj v)\<rparr>)
      | _ \<Rightarrow> Inl Fault)"

definition read_at :: "'a params \<Rightarrow> array \<Rightarrow> size_t \<Rightarrow> ('a, 's) world \<Rightarrow> error + 'a" where
  "read_at c h idx w =
     (case subscript c h idx w of Inl err \<Rightarrow> Inl err | Inr p \<Rightarrow> load w p)"

definition write_at ::
  "'a params \<Rightarrow> array \<Rightarrow> size_t \<Rightarrow> 'a \<Rightarrow> ('a, 's) world \<Rightarrow> error + ('a, 's) world" where
  "write_at c h idx v w =
     (case subscript c h idx w of Inl err \<Rightarrow> Inl err | Inr p \<Rightarrow> store w p v)"

text \<open>
  A traversal \<^verbatim>\<open>for (it = begin(), e = end(); it != e; ++it)\<close> that reads every
  element, as the class's own loops walk the block.
\<close>

partial_function (option) collect_loop ::
  "'a params \<Rightarrow> addr \<Rightarrow> addr \<Rightarrow> ('a, 's) world \<Rightarrow> 'a list \<Rightarrow> (error + 'a list) option" where
  "collect_loop c it e w acc =
     (if it \<noteq> e then
        (case load w it of
           Inl err \<Rightarrow> Some (Inl err)
         | Inr v \<Rightarrow> collect_loop c (it + sizeof_T c) e w (acc @ [v]))
      else Some (Inr acc))"

definition iterate :: "'a params \<Rightarrow> array \<Rightarrow> ('a, 's) world \<Rightarrow> (error + 'a list) option" where
  "iterate c h w =
     (let it = begin_array h in
      case end_array c h w of
        Inl err \<Rightarrow> Some (Inl err)
      | Inr e \<Rightarrow> collect_loop c it e w [])"

section \<open>The subclasses \<^verbatim>\<open>sarray<T>\<close> and \<^verbatim>\<open>ptr_array<T>\<close>\<close>

text \<open>
  Both derive from \<^verbatim>\<open>array<_, false>\<close>; their constructors forward to the base class and
  every other member is inherited. The elements of a \<^verbatim>\<open>ptr_array\<close> are addresses.
\<close>

definition base_false :: "'a params \<Rightarrow> 'a params" where
  "base_false c = c\<lparr>CallDestructors := False\<rparr>"

definition sarray_default :: "array \<Rightarrow> array" where
  "sarray_default h0 = array_default h0"

definition sarray_mem_vs ::
  "'a params \<Rightarrow> addr \<Rightarrow> size_t \<Rightarrow> addr \<Rightarrow> array \<Rightarrow> ('a, 's) world \<Rightarrow> ('a, 's) member" where
  "sarray_mem_vs c mem sz vs h0 w = array_mem_vs (base_false c) mem sz vs h0 w"

definition sarray_alloc_vs ::
  "'a params \<Rightarrow> 's Allocator \<Rightarrow> size_t \<Rightarrow> addr \<Rightarrow> array \<Rightarrow> ('a, 's) world
     \<Rightarrow> ('a, 's) member" where
  "sarray_alloc_vs c a sz vs h0 w = array_alloc_vs (base_false c) a sz vs h0 w"

definition sarray_mem_init ::
  "'a params \<Rightarrow> addr \<Rightarrow> size_t \<Rightarrow> bool \<Rightarrow> array \<Rightarrow> ('a, 's) world \<Rightarrow> ('a, 's) member" where
  "sarray_mem_init c mem sz init_mem h0 w = array_mem_init (base_false c) mem sz init_mem h0 w"

definition sarray_alloc_init ::
  "'a params \<Rightarrow> 's Allocator \<Rightarrow> size_t \<Rightarrow> bool \<Rightarrow> array \<Rightarrow> ('a, 's) world
     \<Rightarrow> ('a, 's) member" where
  "sarray_alloc_init c a sz init_mem h0 w =
     array_alloc_init (base_false c) a sz init_mem h0 w"

definition sarray_dtor :: "'a params \<Rightarrow> array \<Rightarrow> ('a, 's) world \<Rightarrow> ('a, 's) member" where
  "sarray_dtor c h w = array_dtor (base_false c) h w"

definition sarray_finalize ::
  "'a params \<Rightarrow> 's Allocator \<Rightarrow> array \<Rightarrow> ('a, 's) world \<Rightarrow> ('a, 's) member" where
  "sarray_finalize c a h w = finalize (base_false c) a h w"

definition ptr_array_default :: "array \<Rightarrow> array" where
  "ptr_array_default h0 = array_default h0"

definition ptr_array_mem_vs ::
  "addr params \<Rightarrow> addr \<Rightarrow> size_t \<Rightarrow> addr \<Rightarrow> array \<Rightarrow> (addr, 's) world
     \<Rightarrow> (addr, 's) member" where
  "ptr_array_mem_vs c mem sz vs h0 w = array_mem_vs (base_false c) mem sz vs h0 w"

definition ptr_array_alloc_vs ::
  "addr params \<Rightarrow> 's Allocator \<Rightarrow> size_t \<Rightarrow> addr \<Rightarrow> array \<Rightarrow> (addr, 's) world
     \<Rightarrow> (addr, 's) member" where
  "ptr_array_alloc_vs c a sz vs h0 w = array_alloc_vs (base_false c) a sz vs h0 w"

definition ptr_array_mem_init ::
  "addr params \<Rightarrow> addr \<Rightarrow> size_t \<Rightarrow> bool \<Rightarrow> array \<Rightarrow> (addr, 's) world
     \<Rightarrow> (addr, 's) member" where
  "ptr_array_mem_init c mem sz init_mem h0 w =
     array_mem_init (base_false c) mem sz init_mem h0 w"

definition ptr_array_alloc_init ::
  "addr params \<Rightarrow> 's Allocator \<Rightarrow> size_t \<Rightarrow> bool \<Rightarrow> array \<Rightarrow> (addr, 's) world
     \<Rightarrow> (addr, 's) member" where
  "ptr_array_alloc_init c a sz init_mem h0 w =
     array_alloc_init (base_false c) a sz init_mem h0 w"

definition ptr_array_dtor :: "addr params \<Rightarrow> array \<Rightarrow> (addr, 's) world \<Rightarrow> (addr, 's) member" where
  "ptr_array_dtor c h w = array_dtor (base_false c) h w"

definition ptr_array_finalize ::
  "addr params \<Rightarrow> 's Allocator \<Rightarrow> array \<Rightarrow> (addr, 's) world \<Rightarrow> (addr, 's) member" where
  "ptr_array_finalize c a h w = finalize (base_false c) a h w"

section \<open>Describing blocks and runs\<close>

text \<open>
  \<open>objs_at hp p s xs\<close>: the live elements \<open>xs\<close> lie in \<open>hp\<close> from address \<open>p\<close> on, one every
  \<open>s\<close> bytes. \<open>block_at c w h xs\<close>: the handle \<open>h\<close> points at a block holding \<open>xs\<close>, its
  header in front of it.
\<close>

fun objs_at :: "(addr \<Rightarrow> 'a cell option) \<Rightarrow> addr \<Rightarrow> nat \<Rightarrow> 'a list \<Rightarrow> bool" where
  "objs_at hp p s [] = True"
| "objs_at hp p s (x # xs) = (hp p = Some (Obj x) \<and> objs_at hp (p + s) s xs)"

definition block_at :: "'a params \<Rightarrow> ('a, 's) world \<Rightarrow> array \<Rightarrow> 'a list \<Rightarrow> bool" where
  "block_at c w h xs =
     (sizeof_size_t \<le> m_data h \<and> length xs < 2 ^ 64
      \<and> heap w (m_data h - sizeof_size_t) = Some (Hdr (word_of_nat (length xs)))
      \<and> objs_at (heap w) (m_data h) (sizeof_T c) xs)"

text \<open>The constructor and destructor calls of one forward pass over a block.\<close>

fun construct_events :: "addr \<Rightarrow> nat \<Rightarrow> 'a list \<Rightarrow> 'a event list" where
  "construct_events p s [] = []"
| "construct_events p s (x # xs) = Construct p x # construct_events (p + s) s xs"

fun destruct_events :: "addr \<Rightarrow> nat \<Rightarrow> 'a list \<Rightarrow> 'a event list" where
  "destruct_events p s [] = []"
| "destruct_events p s (x # xs) = Destruct p x # destruct_events (p + s) s xs"

text \<open>
  An operation that creates a block succeeded, and the handle it leaves has \<^verbatim>\<open>size()\<close>
  \<open>n\<close> and yields \<open>xs\<close> when traversed from \<^verbatim>\<open>begin()\<close> to \<^verbatim>\<open>end()\<close>.
\<close>

definition created_with ::
  "'a params \<Rightarrow> size_t \<Rightarrow> 'a list \<Rightarrow> ('a, 's) member \<Rightarrow> bool" where
  "created_with c n xs r =
     (case r of
        Some (Inr _, h', w') \<Rightarrow> size_array h' w' = Inr n \<and> iterate c h' w' = Some (Inr xs)
      | _ \<Rightarrow> False)"

text \<open>
  An operation succeeded and left a handle that is not \<^verbatim>\<open>empty()\<close> and whose \<^verbatim>\<open>size()\<close>
  is \<open>n\<close>.
\<close>

definition backed_block :: "size_t \<Rightarrow> ('a, 's) member \<Rightarrow> bool" where
  "backed_block n r =
     (case r of
        Some (Inr _, h', w') \<Rightarrow> \<not> empty_array h' \<and> size_array h' w' = Inr n
      | _ \<Rightarrow> False)"

subsection \<open>Concrete instances\<close>

text \<open>
  Elements of 4 bytes, a bump allocator that hands out consecutive regions and one that
  always fails, and a memory holding the three source values 10, 20, 30 at address 100.
\<close>

definition params4 :: "bool \<Rightarrow> bool \<Rightarrow> nat params" where
  "params4 cd dbg = \<lparr>sizeof_T = 4, default_T = 0, CallDestructors = cd, DEBUG = dbg\<rparr>"

definition params8 :: "nat params" where
  "params8 = \<lparr>sizeof_T = 8, default_T = 0, CallDestructors = True, DEBUG = False\<rparr>"

definition bump_allocator :: "nat Allocator" where
  "bump_allocator =
     \<lparr>a_allocate = (\<lambda>n s. (Some s, s + unat n)), a_deallocate = (\<lambda>n p s. s)\<rparr>"


definition world0 :: "(nat, nat) world" where
  "world0 =
     \<lparr>heap = [100 \<mapsto> Obj 10, 104 \<mapsto> Obj 20, 108 \<mapsto> Obj 30],
      alloc_state = 1000, trace = []\<rparr>"

definition null_handle :: array where
  "null_handle = \<lparr>m_data = 0\<rparr>"

text \<open>
  A block of the three elements 10, 20, 30 whose header lies at address 200, and a block
  of three pointers (8 bytes each) to the objects at 100, 104 and 108.
\<close>

definition world1 :: "(nat, nat) world" where
  "world1 =
     \<lparr>heap = [200 \<mapsto> Hdr 3, 208 \<mapsto> Obj 10, 212 \<mapsto> Obj 20, 216 \<mapsto> Obj 30],
      alloc_state = 1000, trace = []\<rparr>"

definition handle1 :: array where
  "handle1 = \<lparr>m_data = 208\<rparr>"

definition world2 :: "(addr, nat) world" where
  "world2 =
     \<lparr>heap = [100 \<mapsto> Obj 10, 104 \<mapsto> Obj 20, 108 \<mapsto> Obj 30,
              300 \<mapsto> Hdr 3, 308 \<mapsto> Obj 100, 316 \<mapsto> Obj 104, 324 \<mapsto> Obj 108],
      alloc_state = 1000, trace = []\<rparr>"

definition handle2 :: array where
  "handle2 = \<lparr>m_data = 308\<rparr>"


section \<open>Blocks in memory and the element loops\<close>

lemma objs_at_frame:
  "objs_at hp p s xs \<Longrightarrow> (\<forall>a. p \<le> a \<and> a < p + length xs * s \<longrightarrow> hp' a = hp a) \<Longrightarrow> 0 < s
     \<Longrightarrow> objs_at hp' p s xs"
proof (induction xs arbitrary: p)
  case Nil
  then show ?case by simp
next
  case (Cons x xs)
  have "objs_at hp' (p + s) s xs"
  proof (rule Cons.IH)
    show "objs_at hp (p + s) s xs" using Cons.prems(1) by simp
    show "\<forall>a. p + s \<le> a \<and> a < p + s + length xs * s \<longrightarrow> hp' a = hp a"
      using Cons.prems(2) by (simp add: add.assoc)
    show "0 < s" by fact
  qed
  moreover have "hp' p = hp p" using Cons.prems(2,3) by simp
  ultimately show ?case using Cons.prems(1) by simp
qed

lemma objs_at_nth:
  "objs_at hp p s xs \<Longrightarrow> i < length xs \<Longrightarrow> hp (p + i * s) = Some (Obj (xs ! i))"
proof (induction xs arbitrary: p i)
  case Nil
  then show ?case by simp
next
  case (Cons x xs)
  show ?case
  proof (cases i)
    case 0
    then show ?thesis using Cons.prems by simp
  next
    case (Suc j)
    then have "hp ((p + s) + j * s) = Some (Obj (xs ! j))"
      using Cons.prems Cons.IH[of "p + s" j] by simp
    then show ?thesis using Suc by (simp add: add.assoc)
  qed
qed

lemma destroy_loop_run:
  fixes w :: "('a, 's) world"
  assumes "0 < sizeof_T c"
  shows "objs_at (heap w) it (sizeof_T c) xs \<Longrightarrow>
    \<exists>w'. destroy_loop c it (it + length xs * sizeof_T c) w = Some (Inr (), w')
        \<and> alloc_state w' = alloc_state w
        \<and> trace w' = trace w @ destruct_events it (sizeof_T c) xs
        \<and> (\<forall>i<length xs. heap w' (it + i * sizeof_T c) = None)
        \<and> (\<forall>a. a < it \<or> it + length xs * sizeof_T c \<le> a \<longrightarrow> heap w' a = heap w a)"
proof (induction xs arbitrary: it w)
  case Nil
  show ?case by (subst destroy_loop.simps) simp
next
  case (Cons x xs)
  let ?s = "sizeof_T c"
  let ?w1 = "w\<lparr>heap := (heap w)(it := None), trace := trace w @ [Destruct it x]\<rparr>"
  have hd: "heap w it = Some (Obj x)" and tl: "objs_at (heap w) (it + ?s) ?s xs"
    using Cons.prems by simp_all
  have "objs_at (heap ?w1) (it + ?s) ?s xs"
    by (rule objs_at_frame[OF tl _ assms]) (use assms in simp)
  from Cons.IH[OF this] obtain w' where
    run: "destroy_loop c (it + ?s) (it + ?s + length xs * ?s) ?w1 = Some (Inr (), w')"
    and al: "alloc_state w' = alloc_state ?w1"
    and tr: "trace w' = trace ?w1 @ destruct_events (it + ?s) ?s xs"
    and dead: "\<forall>i<length xs. heap w' (it + ?s + i * ?s) = None"
    and frame: "\<forall>a. a < it + ?s \<or> it + ?s + length xs * ?s \<le> a \<longrightarrow> heap w' a = heap ?w1 a"
    by blast
  have e: "it + length (x # xs) * ?s = it + ?s + length xs * ?s" by simp
  have step: "destroy_loop c it (it + length (x # xs) * ?s) w = Some (Inr (), w')"
    unfolding e by (subst destroy_loop.simps) (use assms hd run in simp)
  have dead': "\<forall>i<length (x # xs). heap w' (it + i * ?s) = None"
  proof (intro allI impI)
    fix i assume i: "i < length (x # xs)"
    show "heap w' (it + i * ?s) = None"
    proof (cases i)
      case 0
      then show ?thesis using frame assms by simp
    next
      case (Suc j)
      then show ?thesis using dead i by (simp add: add.assoc)
    qed
  qed
  have frame': "\<forall>a. a < it \<or> it + length (x # xs) * ?s \<le> a \<longrightarrow> heap w' a = heap w a"
    using frame assms by (auto simp: add.assoc)
  show ?case using step al tr dead' frame' by simp
qed


lemma init_copy_loop_run:
  fixes w :: "('a, 's) world"
  assumes "0 < sizeof_T c"
  shows "objs_at (heap w) vs (sizeof_T c) xs \<Longrightarrow>
    vs + length xs * sizeof_T c \<le> it \<or> it + length xs * sizeof_T c \<le> vs \<Longrightarrow>
    \<exists>w'. init_copy_loop c it (it + length xs * sizeof_T c) vs w = Some (Inr (), w')
        \<and> alloc_state w' = alloc_state w
        \<and> trace w' = trace w @ construct_events it (sizeof_T c) xs
        \<and> objs_at (heap w') it (sizeof_T c) xs
        \<and> (\<forall>a. a < it \<or> it + length xs * sizeof_T c \<le> a \<longrightarrow> heap w' a = heap w a)"
proof (induction xs arbitrary: it vs w)
  case Nil
  show ?case by (subst init_copy_loop.simps) simp
next
  case (Cons x xs)
  let ?s = "sizeof_T c"
  let ?w1 = "w\<lparr>heap := (heap w)(it \<mapsto> Obj x), trace := trace w @ [Construct it x]\<rparr>"
  have hd: "heap w vs = Some (Obj x)" and tl: "objs_at (heap w) (vs + ?s) ?s xs"
    using Cons.prems(1) by simp_all
  have dj: "vs + ?s + length xs * ?s \<le> it \<or> it + ?s + length xs * ?s \<le> vs"
    using Cons.prems(2) by (simp add: add.assoc)
  have src: "objs_at (heap ?w1) (vs + ?s) ?s xs"
    by (rule objs_at_frame[OF tl _ assms]) (use dj assms in auto)
  have dj1: "vs + ?s + length xs * ?s \<le> it + ?s \<or> it + ?s + length xs * ?s \<le> vs + ?s"
    using dj by auto
  from Cons.IH[OF src dj1] obtain w' where
    run: "init_copy_loop c (it + ?s) (it + ?s + length xs * ?s) (vs + ?s) ?w1 = Some (Inr (), w')"
    and al: "alloc_state w' = alloc_state ?w1"
    and tr: "trace w' = trace ?w1 @ construct_events (it + ?s) ?s xs"
    and objs: "objs_at (heap w') (it + ?s) ?s xs"
    and frame: "\<forall>a. a < it + ?s \<or> it + ?s + length xs * ?s \<le> a \<longrightarrow> heap w' a = heap ?w1 a"
    by blast
  have e: "it + length (x # xs) * ?s = it + ?s + length xs * ?s" by simp
  have step: "init_copy_loop c it (it + length (x # xs) * ?s) vs w = Some (Inr (), w')"
    unfolding e by (subst init_copy_loop.simps) (use assms hd run in simp)
  have first: "heap w' it = Some (Obj x)" using frame assms by simp
  have frame': "\<forall>a. a < it \<or> it + length (x # xs) * ?s \<le> a \<longrightarrow> heap w' a = heap w a"
    using frame assms by (auto simp: add.assoc)
  show ?case using step al tr objs first frame' by simp
qed

lemma init_loop_run:
  fixes w :: "('a, 's) world"
  assumes "0 < sizeof_T c"
  shows
    "\<exists>w'. init_loop c it (it + n * sizeof_T c) w = Some (Inr (), w')
        \<and> alloc_state w' = alloc_state w
        \<and> trace w' = trace w @ construct_events it (sizeof_T c) (replicate n (default_T c))
        \<and> objs_at (heap w') it (sizeof_T c) (replicate n (default_T c))
        \<and> (\<forall>a. a < it \<or> it + n * sizeof_T c \<le> a \<longrightarrow> heap w' a = heap w a)"
proof (induction n arbitrary: it w)
  case 0
  show ?case by (subst init_loop.simps) simp
next
  case (Suc n)
  let ?s = "sizeof_T c"
  let ?d = "default_T c"
  let ?w1 = "w\<lparr>heap := (heap w)(it \<mapsto> Obj ?d), trace := trace w @ [Construct it ?d]\<rparr>"
  from Suc.IH[of "it + ?s" ?w1] obtain w' where
    run: "init_loop c (it + ?s) (it + ?s + n * ?s) ?w1 = Some (Inr (), w')"
    and al: "alloc_state w' = alloc_state ?w1"
    and tr: "trace w' = trace ?w1 @ construct_events (it + ?s) ?s (replicate n ?d)"
    and objs: "objs_at (heap w') (it + ?s) ?s (replicate n ?d)"
    and frame: "\<forall>a. a < it + ?s \<or> it + ?s + n * ?s \<le> a \<longrightarrow> heap w' a = heap ?w1 a"
    by blast
  have e: "it + Suc n * ?s = it + ?s + n * ?s" by simp
  have step: "init_loop c it (it + Suc n * ?s) w = Some (Inr (), w')"
    unfolding e by (subst init_loop.simps) (use assms run in simp)
  have first: "heap w' it = Some (Obj ?d)" using frame assms by simp
  have frame': "\<forall>a. a < it \<or> it + Suc n * ?s \<le> a \<longrightarrow> heap w' a = heap w a"
    using frame assms by (auto simp: add.assoc)
  show ?case using step al tr objs first frame' by simp
qed

lemma collect_loop_run:
  fixes w :: "('a, 's) world"
  assumes "0 < sizeof_T c"
  shows "objs_at (heap w) it (sizeof_T c) xs \<Longrightarrow>
    collect_loop c it (it + length xs * sizeof_T c) w acc = Some (Inr (acc @ xs))"
proof (induction xs arbitrary: it acc)
  case Nil
  show ?case by (subst collect_loop.simps) simp
next
  case (Cons x xs)
  let ?s = "sizeof_T c"
  have hd: "load w it = Inr x" and tl: "objs_at (heap w) (it + ?s) ?s xs"
    using Cons.prems by (simp_all add: load_def)
  have e: "it + length (x # xs) * ?s = it + ?s + length xs * ?s" by simp
  show ?case
    unfolding e by (subst collect_loop.simps) (use assms hd Cons.IH[OF tl] in simp)
qed

lemma unat_size_t_bound: "unat (n :: size_t) < 2 ^ 64"
  using unsigned_less[of n, where 'a = nat] by simp

lemma unat_of_nat_size_t: "n < 2 ^ 64 \<Longrightarrow> unat (word_of_nat n :: size_t) = n"
  by (simp add: unat_of_nat)

lemma ptr_add_header: "sizeof_size_t \<le> p \<Longrightarrow> ptr_add p (-1) sizeof_size_t = Some (p - sizeof_size_t)"
  by (simp add: ptr_add_def nat_diff_distrib' of_nat_diff)

lemma block_at_nonnull: "block_at c w h xs \<Longrightarrow> m_data h \<noteq> 0"
  by (auto simp: block_at_def sizeof_size_t_def)

lemma size_array_block:
  "block_at c w h xs \<Longrightarrow> size_array h w = Inr (word_of_nat (length xs))"
  using block_at_nonnull[of c w h xs]
  by (simp add: size_array_def block_at_def SIZE_IDX_def ptr_add_header)

lemma end_array_block:
  "block_at c w h xs \<Longrightarrow> end_array c h w = Inr (m_data h + length xs * sizeof_T c)"
  by (simp add: end_array_def size_array_block, simp add: block_at_def unat_of_nat_size_t)

lemma iterate_block:
  "block_at c w h xs \<Longrightarrow> 0 < sizeof_T c \<Longrightarrow> iterate c h w = Some (Inr xs)"
  using collect_loop_run[of c w "m_data h" xs "[]"]
  by (simp add: iterate_def end_array_block begin_array_def, simp add: block_at_def)

lemma block_at_frame:
  assumes "block_at c w h xs" "0 < sizeof_T c"
    and "\<forall>a. m_data h - sizeof_size_t \<le> a \<and> a < m_data h + length xs * sizeof_T c
            \<longrightarrow> heap w' a = heap w a"
  shows "block_at c w' h xs"
proof -
  have "objs_at (heap w') (m_data h) (sizeof_T c) xs"
    by (rule objs_at_frame[of "heap w"]) (use assms in \<open>auto simp: block_at_def\<close>)
  moreover have "heap w' (m_data h - sizeof_size_t) = heap w (m_data h - sizeof_size_t)"
    using assms by (auto simp: block_at_def sizeof_size_t_def)
  ultimately show ?thesis using assms(1) by (simp add: block_at_def)
qed

lemma init_copy_after_set_data:
  fixes w :: "('a, 's) world"
  assumes s: "0 < sizeof_T c"
    and src: "objs_at (heap w) vs (sizeof_T c) xs"
    and len: "length xs = unat sz"
    and dj: "vs + length xs * sizeof_T c \<le> mem
             \<or> mem + sizeof_size_t + length xs * sizeof_T c \<le> vs"
  shows "\<exists>w'. (case set_data mem sz h w of (h1, w1) \<Rightarrow> lift_step h1 (init_copy c h1 vs w1))
            = Some (Inr (), h\<lparr>m_data := mem + sizeof_size_t\<rparr>, w')
        \<and> block_at c w' (h\<lparr>m_data := mem + sizeof_size_t\<rparr>) xs
        \<and> alloc_state w' = alloc_state w
        \<and> trace w' = trace w @ construct_events (mem + sizeof_size_t) (sizeof_T c) xs
        \<and> (\<forall>a. a < mem \<or> mem + sizeof_size_t + length xs * sizeof_T c \<le> a
               \<longrightarrow> heap w' a = heap w a)"
proof -
  let ?s = "sizeof_T c"
  let ?h1 = "h\<lparr>m_data := mem + sizeof_size_t\<rparr>"
  let ?w1 = "w\<lparr>heap := (heap w)(mem \<mapsto> Hdr sz)\<rparr>"
  have sd: "set_data mem sz h w = (?h1, ?w1)" by (simp add: set_data_def)
  have sz: "size_array ?h1 ?w1 = Inr sz"
    by (simp add: size_array_def SIZE_IDX_def ptr_add_header) (simp add: sizeof_size_t_def)
  have en: "end_array c ?h1 ?w1 = Inr (mem + sizeof_size_t + length xs * ?s)"
    by (simp add: end_array_def sz len)
  have src1: "objs_at (heap ?w1) vs ?s xs"
    by (rule objs_at_frame[OF src _ s]) (use dj in \<open>auto simp: sizeof_size_t_def\<close>)
  have dj1: "vs + length xs * ?s \<le> mem + sizeof_size_t
             \<or> mem + sizeof_size_t + length xs * ?s \<le> vs"
    using dj by auto
  from init_copy_loop_run[OF s src1 dj1] obtain w' where
    run: "init_copy_loop c (mem + sizeof_size_t) (mem + sizeof_size_t + length xs * ?s) vs ?w1
            = Some (Inr (), w')"
    and al: "alloc_state w' = alloc_state ?w1"
    and tr: "trace w' = trace ?w1 @ construct_events (mem + sizeof_size_t) ?s xs"
    and objs: "objs_at (heap w') (mem + sizeof_size_t) ?s xs"
    and frame: "\<forall>a. a < mem + sizeof_size_t \<or> mem + sizeof_size_t + length xs * ?s \<le> a
                  \<longrightarrow> heap w' a = heap ?w1 a"
    by blast
  have hdr: "heap w' mem = Some (Hdr sz)"
    using frame by (simp add: sizeof_size_t_def)
  have blk: "block_at c w' ?h1 xs"
    using objs hdr len unat_size_t_bound[of sz] by (simp add: block_at_def)
  have frame': "\<forall>a. a < mem \<or> mem + sizeof_size_t + length xs * ?s \<le> a \<longrightarrow> heap w' a = heap w a"
    using frame by (auto simp: sizeof_size_t_def)
  have "(case set_data mem sz h w of (h1, w1) \<Rightarrow> lift_step h1 (init_copy c h1 vs w1))
          = Some (Inr (), ?h1, w')"
    by (simp add: sd init_copy_def en begin_array_def run lift_step_def)
  then show ?thesis using blk al tr frame' by auto
qed

lemma world1_block: "block_at (params4 cd dbg) world1 handle1 [10, 20, 30]"
  by (simp add: block_at_def params4_def world1_def handle1_def sizeof_size_t_def)

lemma world2_block:
  "sizeof_T c = 8 \<Longrightarrow> block_at c world2 handle2 [100, 104, 108]"
  by (simp add: block_at_def world2_def handle2_def sizeof_size_t_def)

section \<open>Creation and teardown of a block\<close>

lemma set_mem_run:
  fixes w :: "('a, 's) world"
  assumes "0 < sizeof_T c" "DEBUG c \<longrightarrow> m_data h = 0"
    and "objs_at (heap w) vs (sizeof_T c) xs" "length xs = unat sz"
    and "vs + length xs * sizeof_T c \<le> mem
         \<or> mem + sizeof_size_t + length xs * sizeof_T c \<le> vs"
  shows "\<exists>w'. set_mem c mem sz vs h w = Some (Inr (), h\<lparr>m_data := mem + sizeof_size_t\<rparr>, w')
        \<and> block_at c w' (h\<lparr>m_data := mem + sizeof_size_t\<rparr>) xs
        \<and> alloc_state w' = alloc_state w
        \<and> trace w' = trace w @ construct_events (mem + sizeof_size_t) (sizeof_T c) xs
        \<and> (\<forall>a. a < mem \<or> mem + sizeof_size_t + length xs * sizeof_T c \<le> a
               \<longrightarrow> heap w' a = heap w a)"
  using init_copy_after_set_data[OF assms(1,3,4,5), of h] assms(2)
  by (simp add: set_mem_def)

lemma set_alloc_run:
  fixes w :: "('a, 's) world"
  assumes "0 < sizeof_T c" "DEBUG c \<longrightarrow> m_data h = 0"
    and "objs_at (heap w) vs (sizeof_T c) xs" "length xs = unat sz"
    and "fst (a_allocate a (space c sz) (alloc_state w)) = Some mem"
    and "vs + length xs * sizeof_T c \<le> mem
         \<or> mem + sizeof_size_t + length xs * sizeof_T c \<le> vs"
  shows "\<exists>w'. set_alloc c a sz vs h w = Some (Inr (), h\<lparr>m_data := mem + sizeof_size_t\<rparr>, w')
        \<and> block_at c w' (h\<lparr>m_data := mem + sizeof_size_t\<rparr>) xs
        \<and> alloc_state w' = snd (a_allocate a (space c sz) (alloc_state w))
        \<and> trace w' = trace w @ Allocate (space c sz)
                        # construct_events (mem + sizeof_size_t) (sizeof_T c) xs
        \<and> (\<forall>a. a < mem \<or> mem + sizeof_size_t + length xs * sizeof_T c \<le> a
               \<longrightarrow> heap w' a = heap w a)"
proof -
  let ?w1 = "w\<lparr>alloc_state := snd (a_allocate a (space c sz) (alloc_state w)),
               trace := trace w @ [Allocate (space c sz)]\<rparr>"
  have al: "allocate c a sz h w = (Inr (), set_data mem sz h ?w1)"
    using assms(5) by (simp add: allocate_def Let_def)
  have src: "objs_at (heap ?w1) vs (sizeof_T c) xs" using assms(3) by simp
  from init_copy_after_set_data[OF assms(1) src assms(4,6), of h]
  show ?thesis using assms(2) by (simp add: set_alloc_def al split: prod.splits)
qed

lemma destruct_events_map:
  "destruct_events p s xs = map (\<lambda>i. Destruct (p + i * s) (xs ! i)) [0..<length xs]"
proof (induction xs arbitrary: p)
  case Nil
  show ?case by simp
next
  case (Cons x xs)
  have "map (\<lambda>i. Destruct (p + i * s) ((x # xs) ! i)) [0..<length (x # xs)]
        = Destruct p x # map (\<lambda>i. Destruct (p + Suc i * s) (xs ! i)) [0..<length xs]"
    by (simp add: upt_conv_Cons map_Suc_upt[symmetric] del: upt_Suc)
  then show ?case using Cons.IH[of "p + s"] by (simp add: add.assoc)
qed


lemma destroy_elements_block:
  fixes w :: "('a, 's) world"
  assumes "block_at c w h xs" "0 < sizeof_T c"
  shows "\<exists>w'. destroy_elements c h w = Some (Inr (), w')
        \<and> alloc_state w' = alloc_state w
        \<and> trace w' = trace w @ destruct_events (m_data h) (sizeof_T c) xs
        \<and> (\<forall>i<length xs. heap w' (m_data h + i * sizeof_T c) = None)
        \<and> (\<forall>a. a < m_data h \<or> m_data h + length xs * sizeof_T c \<le> a
               \<longrightarrow> heap w' a = heap w a)"
proof -
  have objs: "objs_at (heap w) (m_data h) (sizeof_T c) xs"
    using assms(1) by (simp add: block_at_def)
  show ?thesis
    using destroy_loop_run[OF assms(2) objs]
    by (simp add: destroy_elements_def end_array_block[OF assms(1)] begin_array_def)
qed

lemma finalize_block:
  fixes w :: "('a, 's) world"
  assumes "block_at c w h xs" "0 < sizeof_T c"
  shows "\<exists>w'. finalize c a h w = Some (Inr (), h\<lparr>m_data := 0\<rparr>, w')
        \<and> alloc_state w' = a_deallocate a (word_of_nat (length xs))
                              (m_data h - sizeof_size_t) (alloc_state w)
        \<and> trace w' = trace w
             @ (if CallDestructors c then destruct_events (m_data h) (sizeof_T c) xs else [])
             @ [Deallocate (word_of_nat (length xs)) (m_data h - sizeof_size_t)]
        \<and> (\<forall>i<length xs. heap w' (m_data h + i * sizeof_T c)
               = (if CallDestructors c then None else heap w (m_data h + i * sizeof_T c)))
        \<and> (\<forall>a. a < m_data h \<or> m_data h + length xs * sizeof_T c \<le> a
               \<longrightarrow> heap w' a = heap w a)"
proof -
  have nn: "m_data h \<noteq> 0" by (rule block_at_nonnull[OF assms(1)])
  have rp: "raw_ptr h = Some (m_data h - sizeof_size_t)"
    using assms(1) by (simp add: raw_ptr_def ptr_add_header block_at_def)
  show ?thesis
  proof (cases "CallDestructors c")
    case False
    then show ?thesis
      by (simp add: finalize_def nn size_array_block[OF assms(1)] rp)
  next
    case True
    from destroy_elements_block[OF assms] obtain w1 where
      run: "destroy_elements c h w = Some (Inr (), w1)"
      and al: "alloc_state w1 = alloc_state w"
      and tr: "trace w1 = trace w @ destruct_events (m_data h) (sizeof_T c) xs"
      and dead: "\<forall>i<length xs. heap w1 (m_data h + i * sizeof_T c) = None"
      and frame: "\<forall>a. a < m_data h \<or> m_data h + length xs * sizeof_T c \<le> a
                    \<longrightarrow> heap w1 a = heap w a"
      by blast
    have "heap w1 (m_data h - sizeof_size_t) = heap w (m_data h - sizeof_size_t)"
      using frame nn by (simp add: sizeof_size_t_def)
    then have sz: "size_array h w1 = Inr (word_of_nat (length xs))"
      using assms(1) nn by (simp add: size_array_def SIZE_IDX_def ptr_add_header block_at_def)
    show ?thesis
      using True by (simp add: finalize_def nn run sz rp al tr dead frame)
  qed
qed

section \<open>The size computation\<close>

lemma space_unat:
  "unat (space c sz) = (unat sz * sizeof_T c + sizeof_size_t) mod 2 ^ 64"
  by (simp add: space_def unat_word_ariths unat_of_nat mod_simps mult.commute)

text \<open>
  C4: \<^verbatim>\<open>space(n)\<close> is a function of \<open>n\<close> alone (it reads and writes no state and cannot
  fail); its value is \<open>n * sizeof(T) + sizeof(size_t)\<close> reduced modulo \<open>2^64\<close>, which is
  that byte count itself whenever the count is below \<open>2^64\<close>.
\<close>

theorem space_bytes:
  "unat (space c n) = (unat n * sizeof_T c + sizeof_size_t) mod 2 ^ 64
   \<and> (unat n * sizeof_T c + sizeof_size_t < 2 ^ 64
        \<longrightarrow> unat (space c n) = unat n * sizeof_T c + sizeof_size_t)"
  by (simp add: space_unat)

theorem space_bytes_witness:
  "unat (3 :: size_t) * sizeof_T params8 + sizeof_size_t < 2 ^ 64
   \<and> unat (space params8 3) = unat (3 :: size_t) * sizeof_T params8 + sizeof_size_t
   \<and> unat (space params8 3) = 32"
  using space_bytes [of params8 3] by (simp add: params8_def sizeof_size_t_def)

text \<open>
  For \<open>2^61\<close> elements of 8 bytes the byte count \<open>2^64 + 8\<close> does not fit into
  \<^verbatim>\<open>size_t\<close>: \<^verbatim>\<open>space\<close> returns 8.
\<close>

theorem space_bytes_counterexample:
  "unat (space params8 (2 ^ 61)) = 8
   \<and> unat (space params8 (2 ^ 61)) \<noteq> unat (2 ^ 61 :: size_t) * sizeof_T params8 + sizeof_size_t"
  by (simp add: space_def params8_def sizeof_size_t_def)

section \<open>Copying a source sequence into a block\<close>

text \<open>
  C1: for every \<open>n\<close> and every source sequence \<open>xs\<close> of \<open>n\<close> values (lying at \<open>vs\<close>, apart
  from the region of the new block), creating a block from it with either \<^verbatim>\<open>set\<close>
  overload or either copying constructor succeeds; afterwards \<^verbatim>\<open>size()\<close> is \<open>n\<close> and the
  traversal from \<^verbatim>\<open>begin()\<close> to \<^verbatim>\<open>end()\<close> yields exactly \<open>xs\<close>, in order.
\<close>

theorem create_round_trip:
  fixes w :: "('a, 's) world"
  assumes "0 < sizeof_T c" and "length xs = unat n"
    and "objs_at (heap w) vs (sizeof_T c) xs"
    and "vs + length xs * sizeof_T c \<le> mem
         \<or> mem + sizeof_size_t + length xs * sizeof_T c \<le> vs"
  shows "((DEBUG c \<longrightarrow> m_data h = 0) \<longrightarrow> created_with c n xs (set_mem c mem n vs h w))
       \<and> ((DEBUG c \<longrightarrow> m_data h = 0) \<and> fst (a_allocate a (space c n) (alloc_state w)) = Some mem
            \<longrightarrow> created_with c n xs (set_alloc c a n vs h w))
       \<and> created_with c n xs (array_mem_vs c mem n vs h0 w)
       \<and> (fst (a_allocate a (space c n) (alloc_state w)) = Some mem
            \<longrightarrow> created_with c n xs (array_alloc_vs c a n vs h0 w))"
proof -
  have blk: "created_with c n xs (Some (Inr (), h', w'))" if "block_at c w' h' xs"
    for h' and w' :: "('a, 's) world"
    using that assms(1,2) by (simp add: created_with_def size_array_block iterate_block)
  have mem: "created_with c n xs (set_mem c mem n vs g w)" if "DEBUG c \<longrightarrow> m_data g = 0" for g
    using set_mem_run[OF assms(1) that assms(3,2,4)] blk by auto
  have alloc: "created_with c n xs (set_alloc c a n vs g w)"
    if "DEBUG c \<longrightarrow> m_data g = 0" "fst (a_allocate a (space c n) (alloc_state w)) = Some mem"
    for g
    using set_alloc_run[OF assms(1) that(1) assms(3,2) that(2) assms(4)] blk by auto
  have clr: "DEBUG c \<longrightarrow> m_data (DEBUG_CODE_clear c h0) = 0"
    by (simp add: DEBUG_CODE_clear_def)
  show ?thesis
    using mem[of h] alloc[of h] mem[OF clr] alloc[OF clr]
    by (simp add: array_mem_vs_def array_alloc_vs_def)
qed

theorem create_round_trip_witness:
  "0 < sizeof_T (params4 True True) \<and> length [10, 20, 30 :: nat] = unat (3 :: size_t)
   \<and> objs_at (heap world0) 100 (sizeof_T (params4 True True)) [10, 20, 30]
   \<and> DEBUG (params4 True True) \<and> m_data null_handle = 0
   \<and> fst (a_allocate bump_allocator (space (params4 True True) 3) (alloc_state world0)) = Some 1000
   \<and> created_with (params4 True True) 3 [10, 20, 30]
        (set_mem (params4 True True) 1000 3 100 null_handle world0)
   \<and> created_with (params4 True True) 3 [10, 20, 30]
        (set_alloc (params4 True True) bump_allocator 3 100 null_handle world0)"
  using create_round_trip [of "params4 True True" "[10, 20, 30]" 3 world0 100 1000
      null_handle bump_allocator null_handle]
  by (simp add: params4_def world0_def null_handle_def sizeof_size_t_def bump_allocator_def)

section \<open>Evaluating the loops step by step\<close>

lemma size_array_null: "m_data h = 0 \<Longrightarrow> size_array h w = Inr 0"
  by (simp add: size_array_def)

lemma collect_loop_stop: "collect_loop c e e w acc = Some (Inr acc)"
  by (subst collect_loop.simps) simp

lemma iterate_null: "m_data h = 0 \<Longrightarrow> iterate c h w = Some (Inr [])"
  by (simp add: iterate_def end_array_def size_array_null begin_array_def collect_loop_stop)

lemma init_copy_loop_stop: "init_copy_loop c e e vs w = Some (Inr (), w)"
  by (subst init_copy_loop.simps) simp

lemma init_copy_loop_step:
  "it \<noteq> e \<Longrightarrow> heap w vs = Some (Obj v) \<Longrightarrow>
   init_copy_loop c it e vs w =
     init_copy_loop c (it + sizeof_T c) e (vs + sizeof_T c)
       (w\<lparr>heap := (heap w)(it \<mapsto> Obj v), trace := trace w @ [Construct it v]\<rparr>)"
  by (subst init_copy_loop.simps) simp

lemma destroy_loop_stop: "destroy_loop c e e w = Some (Inr (), w)"
  by (subst destroy_loop.simps) simp

lemma destroy_loop_step:
  "it \<noteq> e \<Longrightarrow> heap w it = Some (Obj v) \<Longrightarrow>
   destroy_loop c it e w =
     destroy_loop c (it + sizeof_T c) e
       (w\<lparr>heap := (heap w)(it := None), trace := trace w @ [Destruct it v]\<rparr>)"
  by (subst destroy_loop.simps) simp

lemma collect_loop_step:
  "it \<noteq> e \<Longrightarrow> load w it = Inr v \<Longrightarrow>
   collect_loop c it e w acc = collect_loop c (it + sizeof_T c) e w (acc @ [v])"
  by (subst collect_loop.simps) simp

text \<open>Three runs on the concrete instances, computed by the model.\<close>

lemma set_mem_world0:
  "map_option (\<lambda>(r, h, w). (r, m_data h, trace w, map (heap w) [200, 208, 212, 216]))
     (set_mem (params4 True True) 200 3 100 null_handle world0)
   = Some (Inr (), 208, [Construct 208 10, Construct 212 20, Construct 216 30],
       [Some (Hdr 3), Some (Obj 10), Some (Obj 20), Some (Obj 30)])"
  by (simp add: set_mem_def set_data_def init_copy_def lift_step_def end_array_def
      size_array_def begin_array_def ptr_add_def SIZE_IDX_def sizeof_size_t_def params4_def
      world0_def null_handle_def init_copy_loop_stop init_copy_loop_step)

lemma iterate_world1:
  "iterate (params4 True True) handle1 world1 = Some (Inr [10, 20, 30])"
  by (simp add: iterate_def end_array_def size_array_def begin_array_def ptr_add_def
      SIZE_IDX_def sizeof_size_t_def params4_def world1_def handle1_def load_def
      collect_loop_stop collect_loop_step)

lemma finalize_world1:
  "map_option (\<lambda>(r, h, w). (r, m_data h, alloc_state w, trace w,
                             map (heap w) [200, 208, 212, 216]))
     (finalize (params4 True True) bump_allocator handle1 world1)
   = Some (Inr (), 0, 1000,
       [Destruct 208 10, Destruct 212 20, Destruct 216 30, Deallocate 3 200],
       [Some (Hdr 3), None, None, None])"
  by (simp add: finalize_def destroy_elements_def end_array_def size_array_def begin_array_def
      raw_ptr_def ptr_add_def SIZE_IDX_def sizeof_size_t_def params4_def world1_def
      handle1_def bump_allocator_def destroy_loop_stop destroy_loop_step)

section \<open>Release through the allocator\<close>

text \<open>
  C2: \<^verbatim>\<open>finalize\<close> on a handle that points at a block of the elements \<open>xs\<close> succeeds. When
  \<^verbatim>\<open>CallDestructors\<close> is set it first runs the destructor of each element exactly once,
  in forward storage order, for exactly \<^verbatim>\<open>size()\<close> elements; then it calls
  \<^verbatim>\<open>deallocate(size(), raw_ptr())\<close>, which hands the region starting at the header back
  to the allocator; then it resets the handle, so that afterwards \<^verbatim>\<open>empty()\<close> holds and
  \<^verbatim>\<open>size()\<close> is 0.
\<close>

theorem finalize_releases:
  fixes w :: "('a, 's) world"
  assumes "block_at c w h xs" and "0 < sizeof_T c"
  shows "\<exists>h' w'. finalize c a h w = Some (Inr (), h', w')
      \<and> size_array h w = Inr (word_of_nat (length xs))
      \<and> raw_ptr h = Some (m_data h - sizeof_size_t)
      \<and> trace w' = trace w
           @ (if CallDestructors c
              then map (\<lambda>i. Destruct (m_data h + i * sizeof_T c) (xs ! i)) [0..<length xs]
              else [])
           @ [Deallocate (word_of_nat (length xs)) (m_data h - sizeof_size_t)]
      \<and> alloc_state w' = a_deallocate a (word_of_nat (length xs)) (m_data h - sizeof_size_t)
                            (alloc_state w)
      \<and> m_data h' = 0 \<and> empty_array h' \<and> size_array h' w' = Inr 0"
proof -
  from finalize_block[OF assms, of a] obtain w' where
    run: "finalize c a h w = Some (Inr (), h\<lparr>m_data := 0\<rparr>, w')"
    and al: "alloc_state w' = a_deallocate a (word_of_nat (length xs))
                                (m_data h - sizeof_size_t) (alloc_state w)"
    and tr: "trace w' = trace w
             @ (if CallDestructors c then destruct_events (m_data h) (sizeof_T c) xs else [])
             @ [Deallocate (word_of_nat (length xs)) (m_data h - sizeof_size_t)]"
    by blast
  have rp: "raw_ptr h = Some (m_data h - sizeof_size_t)"
    using assms(1) by (simp add: raw_ptr_def ptr_add_header block_at_def)
  show ?thesis
    using run al tr rp size_array_block[OF assms(1)]
    by (simp add: destruct_events_map empty_array_def size_array_null)
qed

theorem finalize_releases_witness:
  "block_at (params4 True False) world1 handle1 [10, 20, 30]
   \<and> 0 < sizeof_T (params4 True False)
   \<and> (\<exists>h' w'. finalize (params4 True False) bump_allocator handle1 world1 = Some (Inr (), h', w')
        \<and> trace w' = [Destruct 208 10, Destruct 212 20, Destruct 216 30, Deallocate 3 200]
        \<and> empty_array h' \<and> size_array h' w' = Inr 0)"
  using finalize_releases [of "params4 True False" world1 handle1 "[10, 20, 30]" bump_allocator]
  by (simp add: block_at_def params4_def world1_def handle1_def sizeof_size_t_def upt_rec) blast

section \<open>The empty handle and the zero-length block\<close>

lemma set_mem_zero:
  "DEBUG c \<longrightarrow> m_data h = 0 \<Longrightarrow>
   set_mem c mem 0 vs h w
     = Some (Inr (), h\<lparr>m_data := mem + sizeof_size_t\<rparr>, w\<lparr>heap := (heap w)(mem \<mapsto> Hdr 0)\<rparr>)"
  by (simp add: set_mem_def set_data_def init_copy_def end_array_def size_array_def
      SIZE_IDX_def ptr_add_header begin_array_def init_copy_loop_stop lift_step_def)

lemma set_alloc_zero:
  "DEBUG c \<longrightarrow> m_data h = 0 \<Longrightarrow>
   fst (a_allocate a (space c 0) (alloc_state w)) = Some mem \<Longrightarrow>
   set_alloc c a 0 vs h w
     = Some (Inr (), h\<lparr>m_data := mem + sizeof_size_t\<rparr>,
             w\<lparr>alloc_state := snd (a_allocate a (space c 0) (alloc_state w)),
                trace := trace w @ [Allocate (space c 0)],
                heap := (heap w)(mem \<mapsto> Hdr 0)\<rparr>)"
  by (simp add: set_alloc_def allocate_def Let_def set_data_def init_copy_def end_array_def
      size_array_def SIZE_IDX_def ptr_add_header begin_array_def init_copy_loop_stop
      lift_step_def)

lemma created_nonempty:
  fixes w :: "('a, 's) world"
  shows "set_mem c mem n vs h w = Some (Inr (), h', w') \<Longrightarrow> \<not> empty_array h'"
    and "set_alloc c a n vs h w = Some (Inr (), h', w') \<Longrightarrow> \<not> empty_array h'"
    and "array_mem_init c mem n b h0 w = Some (Inr (), h', w') \<Longrightarrow> \<not> empty_array h'"
    and "array_alloc_init c a n b h0 w = Some (Inr (), h', w') \<Longrightarrow> \<not> empty_array h'"
  by (auto simp: set_mem_def set_alloc_def array_mem_init_def array_alloc_init_def
      allocate_def Let_def set_data_def lift_step_def empty_array_def sizeof_size_t_def
      split: if_splits option.splits sum.splits prod.splits)

lemma init_loop_stop: "init_loop c e e w = Some (Inr (), w)"
  by (subst init_loop.simps) simp

lemma init_loop_step:
  "it \<noteq> e \<Longrightarrow>
   init_loop c it e w =
     init_loop c (it + sizeof_T c) e
       (w\<lparr>heap := (heap w)(it \<mapsto> Obj (default_T c)),
          trace := trace w @ [Construct it (default_T c)]\<rparr>)"
  by (subst init_loop.simps) simp

lemma array_mem_init_world0:
  "map_option (\<lambda>(r, h, w). (r, m_data h, trace w, map (heap w) [200, 208, 212]))
     (array_mem_init (params4 True False) 200 2 True null_handle world0)
   = Some (Inr (), 208, [Construct 208 0, Construct 212 0],
       [Some (Hdr 2), Some (Obj 0), Some (Obj 0)])"
  by (simp add: array_mem_init_def DEBUG_CODE_clear_def set_data_def init_def lift_step_def
      end_array_def size_array_def begin_array_def ptr_add_def SIZE_IDX_def sizeof_size_t_def
      params4_def world0_def null_handle_def init_loop_stop init_loop_step)

lemma header_size:
  "heap w mem = Some (Hdr n) \<Longrightarrow>
   size_array (h\<lparr>m_data := mem + sizeof_size_t\<rparr>) w = Inr n
   \<and> \<not> empty_array (h\<lparr>m_data := mem + sizeof_size_t\<rparr>)"
  by (simp add: size_array_def SIZE_IDX_def ptr_add_header empty_array_def)
     (simp add: sizeof_size_t_def)

lemma init_total:
  fixes w :: "('a, 's) world"
  assumes "heap w mem = Some (Hdr n)"
  shows "\<exists>w'. init c (h\<lparr>m_data := mem + sizeof_size_t\<rparr>) w = Some (Inr (), w')
           \<and> heap w' mem = Some (Hdr n)"
proof -
  let ?h1 = "h\<lparr>m_data := mem + sizeof_size_t\<rparr>"
  have en: "end_array c ?h1 w = Inr (mem + sizeof_size_t + unat n * sizeof_T c)"
    using header_size[OF assms, of h] by (simp add: end_array_def)
  show ?thesis
  proof (cases "sizeof_T c = 0")
    case True
    then show ?thesis
      using assms by (simp add: init_def en begin_array_def init_loop_stop)
  next
    case False
    then have s: "0 < sizeof_T c" by simp
    from init_loop_run[OF s, of "mem + sizeof_size_t" "unat n" w] obtain w' where
      run: "init_loop c (mem + sizeof_size_t) (mem + sizeof_size_t + unat n * sizeof_T c) w
              = Some (Inr (), w')"
      and frame: "\<forall>a. a < mem + sizeof_size_t
                     \<or> mem + sizeof_size_t + unat n * sizeof_T c \<le> a
                    \<longrightarrow> heap w' a = heap w a"
      by blast
    have "heap w' mem = Some (Hdr n)"
      using frame assms by (simp add: sizeof_size_t_def)
    then show ?thesis by (simp add: init_def en begin_array_def run)
  qed
qed

lemma backed_blockI:
  "r = Some (Inr (), h', w') \<Longrightarrow> \<not> empty_array h' \<Longrightarrow> size_array h' w' = Inr n
     \<Longrightarrow> backed_block n r"
  by (simp add: backed_block_def)

lemma backed_block_of_block:
  "r = Some (Inr (), h', w') \<Longrightarrow> block_at c w' h' xs \<Longrightarrow> length xs = unat n
     \<Longrightarrow> backed_block n r"
  using block_at_nonnull[of c w' h' xs] size_array_block[of c w' h' xs]
  by (simp add: backed_block_def empty_array_def)

lemma backed_block_zero_traversal:
  "backed_block 0 r \<Longrightarrow> created_with c 0 [] r"
  by (auto simp: backed_block_def created_with_def iterate_def end_array_def begin_array_def
      collect_loop_stop split: option.splits sum.splits prod.splits)

lemma array_mem_init_backed:
  fixes w :: "('a, 's) world"
  shows "backed_block n (array_mem_init c mem n b h0 w)"
proof -
  let ?h = "DEBUG_CODE_clear c h0"
  let ?h1 = "?h\<lparr>m_data := mem + sizeof_size_t\<rparr>"
  let ?w1 = "w\<lparr>heap := (heap w)(mem \<mapsto> Hdr n)\<rparr>"
  have hd: "heap ?w1 mem = Some (Hdr n)" by simp
  show ?thesis
  proof (cases b)
    case False
    then have "array_mem_init c mem n b h0 w = Some (Inr (), ?h1, ?w1)"
      by (simp add: array_mem_init_def set_data_def)
    then show ?thesis using header_size[OF hd, of ?h] by (simp add: backed_block_def)
  next
    case True
    from init_total[OF hd, of c ?h] obtain w' where
      run: "init c ?h1 ?w1 = Some (Inr (), w')" and hd': "heap w' mem = Some (Hdr n)"
      by blast
    have "array_mem_init c mem n b h0 w = Some (Inr (), ?h1, w')"
      using True by (simp add: array_mem_init_def set_data_def run lift_step_def)
    then show ?thesis using header_size[OF hd', of ?h] by (simp add: backed_block_def)
  qed
qed

lemma array_alloc_init_backed:
  fixes w :: "('a, 's) world"
  assumes "fst (a_allocate a (space c n) (alloc_state w)) = Some mem"
  shows "backed_block n (array_alloc_init c a n b h0 w)"
proof -
  let ?h = "DEBUG_CODE_clear c h0"
  let ?h1 = "?h\<lparr>m_data := mem + sizeof_size_t\<rparr>"
  let ?w1 = "w\<lparr>alloc_state := snd (a_allocate a (space c n) (alloc_state w)),
               trace := trace w @ [Allocate (space c n)],
               heap := (heap w)(mem \<mapsto> Hdr n)\<rparr>"
  have al: "allocate c a n ?h w = (Inr (), ?h1, ?w1)"
    using assms by (simp add: allocate_def Let_def set_data_def)
  have hd: "heap ?w1 mem = Some (Hdr n)" by simp
  show ?thesis
  proof (cases b)
    case False
    then have "array_alloc_init c a n b h0 w = Some (Inr (), ?h1, ?w1)"
      by (simp add: array_alloc_init_def al)
    then show ?thesis using header_size[OF hd, of ?h] by (simp add: backed_block_def)
  next
    case True
    from init_total[OF hd, of c ?h] obtain w' where
      run: "init c ?h1 ?w1 = Some (Inr (), w')" and hd': "heap w' mem = Some (Hdr n)"
      by blast
    have "array_alloc_init c a n b h0 w = Some (Inr (), ?h1, w')"
      using True by (simp add: array_alloc_init_def al run lift_step_def)
    then show ?thesis using header_size[OF hd', of ?h] by (simp add: backed_block_def)
  qed
qed

lemma set_mem_backed:
  fixes w :: "('a, 's) world"
  assumes "0 < sizeof_T c" "DEBUG c \<longrightarrow> m_data h = 0"
    and "objs_at (heap w) vs (sizeof_T c) xs" "length xs = unat n"
    and "vs + length xs * sizeof_T c \<le> mem
         \<or> mem + sizeof_size_t + length xs * sizeof_T c \<le> vs"
  shows "backed_block n (set_mem c mem n vs h w)"
proof -
  from set_mem_run[OF assms] obtain w' where
    "set_mem c mem n vs h w = Some (Inr (), h\<lparr>m_data := mem + sizeof_size_t\<rparr>, w')"
    "block_at c w' (h\<lparr>m_data := mem + sizeof_size_t\<rparr>) xs"
    by blast
  then show ?thesis using assms(4) by (rule backed_block_of_block)
qed

lemma set_alloc_backed:
  fixes w :: "('a, 's) world"
  assumes "0 < sizeof_T c" "DEBUG c \<longrightarrow> m_data h = 0"
    and "objs_at (heap w) vs (sizeof_T c) xs" "length xs = unat n"
    and "fst (a_allocate a (space c n) (alloc_state w)) = Some mem"
    and "vs + length xs * sizeof_T c \<le> mem
         \<or> mem + sizeof_size_t + length xs * sizeof_T c \<le> vs"
  shows "backed_block n (set_alloc c a n vs h w)"
proof -
  from set_alloc_run[OF assms] obtain w' where
    "set_alloc c a n vs h w = Some (Inr (), h\<lparr>m_data := mem + sizeof_size_t\<rparr>, w')"
    "block_at c w' (h\<lparr>m_data := mem + sizeof_size_t\<rparr>) xs"
    by blast
  then show ?thesis using assms(4) by (rule backed_block_of_block)
qed

lemma set_mem_zero_backed:
  "DEBUG c \<longrightarrow> m_data h = 0 \<Longrightarrow> backed_block 0 (set_mem c mem 0 vs h w)"
  using header_size[of "w\<lparr>heap := (heap w)(mem \<mapsto> Hdr 0)\<rparr>" mem 0 h]
  by (simp add: set_mem_zero backed_block_def)

lemma set_alloc_zero_backed:
  "DEBUG c \<longrightarrow> m_data h = 0 \<Longrightarrow> fst (a_allocate a (space c 0) (alloc_state w)) = Some mem
     \<Longrightarrow> backed_block 0 (set_alloc c a 0 vs h w)"
  using header_size[of "w\<lparr>alloc_state := snd (a_allocate a (space c 0) (alloc_state w)),
                trace := trace w @ [Allocate (space c 0)],
                heap := (heap w)(mem \<mapsto> Hdr 0)\<rparr>" mem 0 h]
  by (simp add: set_alloc_zero backed_block_def)

lemma debug_clear_null: "DEBUG c \<longrightarrow> m_data (DEBUG_CODE_clear c h0) = 0"
  by (simp add: DEBUG_CODE_clear_def)

text \<open>
  C3: a default-constructed handle and a handle after a successful \<^verbatim>\<open>finalize\<close> are
  \<^verbatim>\<open>empty()\<close>. Every creation leaves a handle that is not: the constructors on a memory
  region always succeed, the allocator-backed ones whenever the allocation does, the
  copying ones given their source, and whatever creation returns normally has left a
  non-empty handle. This holds also when the block has length 0, where \<^verbatim>\<open>size()\<close> is 0
  all the same and the traversal is empty. \<^verbatim>\<open>finalize\<close> on a block succeeds and leaves the
  handle empty. An empty handle reads as a zero-length array: \<^verbatim>\<open>size()\<close> is 0, \<^verbatim>\<open>end()\<close>
  equals \<^verbatim>\<open>begin()\<close> and a traversal yields nothing.
\<close>

theorem empty_iff_unbacked:
  fixes w :: "('a, 's) world"
  shows "empty_array (array_default h0)
     \<and> (\<forall>h' w'. finalize c a h w = Some (Inr (), h', w') \<longrightarrow> empty_array h')
     \<and> (\<forall>h' w'. set_mem c mem n vs h w = Some (Inr (), h', w') \<longrightarrow> \<not> empty_array h')
     \<and> (\<forall>h' w'. set_alloc c a n vs h w = Some (Inr (), h', w') \<longrightarrow> \<not> empty_array h')
     \<and> (\<forall>h' w'. array_mem_vs c mem n vs h0 w = Some (Inr (), h', w') \<longrightarrow> \<not> empty_array h')
     \<and> (\<forall>h' w'. array_alloc_vs c a n vs h0 w = Some (Inr (), h', w') \<longrightarrow> \<not> empty_array h')
     \<and> (\<forall>h' w'. array_mem_init c mem n b h0 w = Some (Inr (), h', w') \<longrightarrow> \<not> empty_array h')
     \<and> (\<forall>h' w'. array_alloc_init c a n b h0 w = Some (Inr (), h', w') \<longrightarrow> \<not> empty_array h')
     \<and> ((DEBUG c \<longrightarrow> m_data h = 0) \<longrightarrow>
          (\<exists>h' w'. set_mem c mem 0 vs h w = Some (Inr (), h', w')
             \<and> \<not> empty_array h' \<and> size_array h' w' = Inr 0 \<and> iterate c h' w' = Some (Inr [])))
     \<and> ((DEBUG c \<longrightarrow> m_data h = 0) \<and> fst (a_allocate a (space c 0) (alloc_state w)) = Some mem \<longrightarrow>
          (\<exists>h' w'. set_alloc c a 0 vs h w = Some (Inr (), h', w')
             \<and> \<not> empty_array h' \<and> size_array h' w' = Inr 0 \<and> iterate c h' w' = Some (Inr [])))
     \<and> (empty_array h \<longrightarrow>
          size_array h w = Inr 0 \<and> end_array c h w = Inr (begin_array h)
          \<and> iterate c h w = Some (Inr []))
     \<and> backed_block n (array_mem_init c mem n b h0 w)
     \<and> (fst (a_allocate a (space c n) (alloc_state w)) = Some mem \<longrightarrow>
          backed_block n (array_alloc_init c a n b h0 w))
     \<and> (0 < sizeof_T c \<and> length xs = unat n \<and> objs_at (heap w) vs (sizeof_T c) xs
          \<and> (vs + length xs * sizeof_T c \<le> mem
               \<or> mem + sizeof_size_t + length xs * sizeof_T c \<le> vs) \<longrightarrow>
          ((DEBUG c \<longrightarrow> m_data h = 0) \<longrightarrow> backed_block n (set_mem c mem n vs h w))
          \<and> backed_block n (array_mem_vs c mem n vs h0 w)
          \<and> (fst (a_allocate a (space c n) (alloc_state w)) = Some mem \<longrightarrow>
               ((DEBUG c \<longrightarrow> m_data h = 0) \<longrightarrow> backed_block n (set_alloc c a n vs h w))
               \<and> backed_block n (array_alloc_vs c a n vs h0 w)))
     \<and> backed_block 0 (array_mem_vs c mem 0 vs h0 w)
     \<and> created_with c 0 [] (array_mem_vs c mem 0 vs h0 w)
     \<and> backed_block 0 (array_mem_init c mem 0 b h0 w)
     \<and> created_with c 0 [] (array_mem_init c mem 0 b h0 w)
     \<and> (fst (a_allocate a (space c 0) (alloc_state w)) = Some mem \<longrightarrow>
          backed_block 0 (array_alloc_vs c a 0 vs h0 w)
          \<and> created_with c 0 [] (array_alloc_vs c a 0 vs h0 w)
          \<and> backed_block 0 (array_alloc_init c a 0 b h0 w)
          \<and> created_with c 0 [] (array_alloc_init c a 0 b h0 w))
     \<and> (block_at c w h xs \<and> 0 < sizeof_T c \<longrightarrow>
          (\<exists>h' w'. finalize c a h w = Some (Inr (), h', w')
             \<and> empty_array h' \<and> size_array h' w' = Inr 0))"
proof -
  have fin: "\<forall>h' w'. finalize c a h w = Some (Inr (), h', w') \<longrightarrow> empty_array h'"
    by (auto simp: finalize_def empty_array_def
        split: if_splits option.splits sum.splits prod.splits)
  have zero: "\<not> empty_array (h\<lparr>m_data := mem + sizeof_size_t\<rparr>)
      \<and> size_array (h\<lparr>m_data := mem + sizeof_size_t\<rparr>) w1 = Inr 0
      \<and> iterate c (h\<lparr>m_data := mem + sizeof_size_t\<rparr>) w1 = Some (Inr [])"
    if "heap w1 mem = Some (Hdr 0)" for w1 :: "('a, 's) world"
  proof -
    have sz: "size_array (h\<lparr>m_data := mem + sizeof_size_t\<rparr>) w1 = Inr 0"
      using that by (simp add: size_array_def SIZE_IDX_def ptr_add_header)
    show ?thesis
      by (simp add: sz iterate_def end_array_def begin_array_def collect_loop_stop)
         (simp add: empty_array_def sizeof_size_t_def)
  qed
  have z1: "(DEBUG c \<longrightarrow> m_data h = 0) \<longrightarrow>
          (\<exists>h' w'. set_mem c mem 0 vs h w = Some (Inr (), h', w')
             \<and> \<not> empty_array h' \<and> size_array h' w' = Inr 0 \<and> iterate c h' w' = Some (Inr []))"
    using zero[of "w\<lparr>heap := (heap w)(mem \<mapsto> Hdr 0)\<rparr>"] by (auto simp: set_mem_zero)
  have z2: "(DEBUG c \<longrightarrow> m_data h = 0) \<and> fst (a_allocate a (space c 0) (alloc_state w)) = Some mem \<longrightarrow>
          (\<exists>h' w'. set_alloc c a 0 vs h w = Some (Inr (), h', w')
             \<and> \<not> empty_array h' \<and> size_array h' w' = Inr 0 \<and> iterate c h' w' = Some (Inr []))"
    using zero[of "w\<lparr>alloc_state := snd (a_allocate a (space c 0) (alloc_state w)),
                trace := trace w @ [Allocate (space c 0)],
                heap := (heap w)(mem \<mapsto> Hdr 0)\<rparr>"] by (auto simp: set_alloc_zero)
  have e: "empty_array h \<longrightarrow>
          size_array h w = Inr 0 \<and> end_array c h w = Inr (begin_array h)
          \<and> iterate c h w = Some (Inr [])"
    by (simp add: empty_array_def size_array_null iterate_null end_array_def begin_array_def)
  have o1: "empty_array (array_default h0)"
    by (simp add: array_default_def empty_array_def)
  have o3: "\<forall>h' w'. set_mem c mem n vs h w = Some (Inr (), h', w') \<longrightarrow> \<not> empty_array h'"
    and o4: "\<forall>h' w'. set_alloc c a n vs h w = Some (Inr (), h', w') \<longrightarrow> \<not> empty_array h'"
    and o7: "\<forall>h' w'. array_mem_init c mem n b h0 w = Some (Inr (), h', w') \<longrightarrow> \<not> empty_array h'"
    and o8: "\<forall>h' w'. array_alloc_init c a n b h0 w = Some (Inr (), h', w') \<longrightarrow> \<not> empty_array h'"
    by (blast dest: created_nonempty)+
  have o5: "\<forall>h' w'. array_mem_vs c mem n vs h0 w = Some (Inr (), h', w') \<longrightarrow> \<not> empty_array h'"
    and o6: "\<forall>h' w'. array_alloc_vs c a n vs h0 w = Some (Inr (), h', w') \<longrightarrow> \<not> empty_array h'"
    unfolding array_mem_vs_def array_alloc_vs_def
    by (blast dest: created_nonempty)+
  have i1: "backed_block n (array_mem_init c mem n b h0 w)"
    by (rule array_mem_init_backed)
  have i2: "fst (a_allocate a (space c n) (alloc_state w)) = Some mem \<longrightarrow>
          backed_block n (array_alloc_init c a n b h0 w)"
    by (simp add: array_alloc_init_backed)
  have src: "((DEBUG c \<longrightarrow> m_data h = 0) \<longrightarrow> backed_block n (set_mem c mem n vs h w))
          \<and> backed_block n (array_mem_vs c mem n vs h0 w)
          \<and> (fst (a_allocate a (space c n) (alloc_state w)) = Some mem \<longrightarrow>
               ((DEBUG c \<longrightarrow> m_data h = 0) \<longrightarrow> backed_block n (set_alloc c a n vs h w))
               \<and> backed_block n (array_alloc_vs c a n vs h0 w))"
    if s: "0 < sizeof_T c" and l: "length xs = unat n"
      and o: "objs_at (heap w) vs (sizeof_T c) xs"
      and d: "vs + length xs * sizeof_T c \<le> mem
               \<or> mem + sizeof_size_t + length xs * sizeof_T c \<le> vs"
    using set_mem_backed[OF s _ o l d, where h = h]
      set_mem_backed[OF s debug_clear_null[of c h0] o l d]
      set_alloc_backed[OF s _ o l _ d, where h = h and a = a]
      set_alloc_backed[OF s debug_clear_null[of c h0] o l _ d, where a = a]
    by (simp add: array_mem_vs_def array_alloc_vs_def)
  have src': "0 < sizeof_T c \<and> length xs = unat n \<and> objs_at (heap w) vs (sizeof_T c) xs
          \<and> (vs + length xs * sizeof_T c \<le> mem
               \<or> mem + sizeof_size_t + length xs * sizeof_T c \<le> vs) \<longrightarrow>
          ((DEBUG c \<longrightarrow> m_data h = 0) \<longrightarrow> backed_block n (set_mem c mem n vs h w))
          \<and> backed_block n (array_mem_vs c mem n vs h0 w)
          \<and> (fst (a_allocate a (space c n) (alloc_state w)) = Some mem \<longrightarrow>
               ((DEBUG c \<longrightarrow> m_data h = 0) \<longrightarrow> backed_block n (set_alloc c a n vs h w))
               \<and> backed_block n (array_alloc_vs c a n vs h0 w))"
    using src by (intro impI) (elim conjE)
  have v0: "backed_block 0 (array_mem_vs c mem 0 vs h0 w)"
    unfolding array_mem_vs_def by (rule set_mem_zero_backed[OF debug_clear_null])
  have v0': "created_with c 0 [] (array_mem_vs c mem 0 vs h0 w)"
    by (rule backed_block_zero_traversal[OF v0])
  have m0: "backed_block 0 (array_mem_init c mem 0 b h0 w)"
    by (rule array_mem_init_backed)
  have m0': "created_with c 0 [] (array_mem_init c mem 0 b h0 w)"
    by (rule backed_block_zero_traversal[OF m0])
  have a0: "fst (a_allocate a (space c 0) (alloc_state w)) = Some mem \<longrightarrow>
          backed_block 0 (array_alloc_vs c a 0 vs h0 w)
          \<and> created_with c 0 [] (array_alloc_vs c a 0 vs h0 w)
          \<and> backed_block 0 (array_alloc_init c a 0 b h0 w)
          \<and> created_with c 0 [] (array_alloc_init c a 0 b h0 w)"
    using set_alloc_zero_backed[OF debug_clear_null[of c h0],
        where a = a and w = w and mem = mem and vs = vs]
      array_alloc_init_backed[where a = a and c = c and n = 0 and w = w and mem = mem
        and b = b and ?h0.0 = h0]
    by (simp add: array_alloc_vs_def backed_block_zero_traversal)
  have f: "block_at c w h xs \<and> 0 < sizeof_T c \<longrightarrow>
          (\<exists>h' w'. finalize c a h w = Some (Inr (), h', w')
             \<and> empty_array h' \<and> size_array h' w' = Inr 0)"
  proof (intro impI, elim conjE)
    assume "block_at c w h xs" "0 < sizeof_T c"
    from finalize_block[OF this, of a]
    show "\<exists>h' w'. finalize c a h w = Some (Inr (), h', w')
             \<and> empty_array h' \<and> size_array h' w' = Inr 0"
      by (auto simp: empty_array_def size_array_null)
  qed
  show ?thesis
    by (intro conjI) (fact o1 fin o3 o4 o5 o6 o7 o8 z1 z2 e i1 i2 src' v0 v0' m0 m0' a0 f)+
qed

theorem empty_iff_unbacked_witness:
  "empty_array null_handle
   \<and> size_array null_handle world0 = Inr 0
   \<and> iterate (params4 True True) null_handle world0 = Some (Inr [])
   \<and> DEBUG (params4 True True) \<and> m_data null_handle = 0
   \<and> fst (a_allocate bump_allocator (space (params4 True True) 0) (alloc_state world0)) = Some 1000
   \<and> fst (a_allocate bump_allocator (space (params4 True True) 3) (alloc_state world0)) = Some 1000
   \<and> 0 < sizeof_T (params4 True True) \<and> length [10, 20, 30 :: nat] = unat (3 :: size_t)
   \<and> objs_at (heap world0) 100 (sizeof_T (params4 True True)) [10, 20, 30]
   \<and> backed_block 3 (array_mem_init (params4 True True) 1000 3 True null_handle world0)
   \<and> backed_block 3
        (array_alloc_init (params4 True True) bump_allocator 3 True null_handle world0)
   \<and> backed_block 3 (array_mem_vs (params4 True True) 1000 3 100 null_handle world0)
   \<and> backed_block 3
        (array_alloc_vs (params4 True True) bump_allocator 3 100 null_handle world0)
   \<and> backed_block 3 (set_mem (params4 True True) 1000 3 100 null_handle world0)
   \<and> backed_block 3 (set_alloc (params4 True True) bump_allocator 3 100 null_handle world0)
   \<and> backed_block 0 (array_mem_init (params4 True True) 1000 0 True null_handle world0)
   \<and> created_with (params4 True True) 0 []
        (array_mem_init (params4 True True) 1000 0 True null_handle world0)
   \<and> backed_block 0 (array_mem_vs (params4 True True) 1000 0 100 null_handle world0)
   \<and> created_with (params4 True True) 0 []
        (array_mem_vs (params4 True True) 1000 0 100 null_handle world0)
   \<and> backed_block 0
        (array_alloc_init (params4 True True) bump_allocator 0 True null_handle world0)
   \<and> created_with (params4 True True) 0 []
        (array_alloc_vs (params4 True True) bump_allocator 0 100 null_handle world0)
   \<and> (\<exists>h' w'. set_mem (params4 True True) 1000 0 100 null_handle world0 = Some (Inr (), h', w')
         \<and> \<not> empty_array h' \<and> size_array h' w' = Inr 0
         \<and> iterate (params4 True True) h' w' = Some (Inr []))
   \<and> (\<exists>h' w'. set_alloc (params4 True True) bump_allocator 0 100 null_handle world0
                 = Some (Inr (), h', w')
         \<and> \<not> empty_array h' \<and> size_array h' w' = Inr 0
         \<and> iterate (params4 True True) h' w' = Some (Inr []))
   \<and> block_at (params4 True True) world1 handle1 [10, 20, 30]
   \<and> (\<exists>h' w'. finalize (params4 True True) bump_allocator handle1 world1 = Some (Inr (), h', w')
         \<and> empty_array h' \<and> size_array h' w' = Inr 0)"
proof -
  have hyp: "empty_array null_handle" "DEBUG (params4 True True)" "m_data null_handle = 0"
    "fst (a_allocate bump_allocator (space (params4 True True) 0) (alloc_state world0))
       = Some 1000"
    "fst (a_allocate bump_allocator (space (params4 True True) 3) (alloc_state world0))
       = Some 1000"
    "0 < sizeof_T (params4 True True)" "length [10, 20, 30 :: nat] = unat (3 :: size_t)"
    "objs_at (heap world0) 100 (sizeof_T (params4 True True)) [10, 20, 30]"
    "100 + length [10, 20, 30 :: nat] * sizeof_T (params4 True True) \<le> 1000"
    by (simp_all add: params4_def world0_def null_handle_def bump_allocator_def
        empty_array_def)
  note t0 = empty_iff_unbacked [where ?h0.0 = null_handle and c = "params4 True True"
      and a = bump_allocator and h = null_handle and w = world0 and mem = 1000 and n = 0
      and vs = 100 and b = True and xs = "[]"]
  note t3 = empty_iff_unbacked [where ?h0.0 = null_handle and c = "params4 True True"
      and a = bump_allocator and h = null_handle and w = world0 and mem = 1000 and n = 3
      and vs = 100 and b = True and xs = "[10, 20, 30]"]
  note t1 = empty_iff_unbacked [where ?h0.0 = null_handle and c = "params4 True True"
      and a = bump_allocator and h = handle1 and w = world1 and mem = 1000 and n = 3
      and vs = 100 and b = True and xs = "[10, 20, 30]"]
  have e: "size_array null_handle world0 = Inr 0
     \<and> iterate (params4 True True) null_handle world0 = Some (Inr [])"
    using t0 hyp(1) by blast
  have z: "(\<exists>h' w'. set_mem (params4 True True) 1000 0 100 null_handle world0
                 = Some (Inr (), h', w')
         \<and> \<not> empty_array h' \<and> size_array h' w' = Inr 0
         \<and> iterate (params4 True True) h' w' = Some (Inr []))
     \<and> (\<exists>h' w'. set_alloc (params4 True True) bump_allocator 0 100 null_handle world0
                 = Some (Inr (), h', w')
         \<and> \<not> empty_array h' \<and> size_array h' w' = Inr 0
         \<and> iterate (params4 True True) h' w' = Some (Inr []))"
    using t0 hyp(3,4) by blast
  have z0: "backed_block 0 (array_mem_init (params4 True True) 1000 0 True null_handle world0)
     \<and> created_with (params4 True True) 0 []
          (array_mem_init (params4 True True) 1000 0 True null_handle world0)
     \<and> backed_block 0 (array_mem_vs (params4 True True) 1000 0 100 null_handle world0)
     \<and> created_with (params4 True True) 0 []
          (array_mem_vs (params4 True True) 1000 0 100 null_handle world0)
     \<and> backed_block 0
          (array_alloc_init (params4 True True) bump_allocator 0 True null_handle world0)
     \<and> created_with (params4 True True) 0 []
          (array_alloc_vs (params4 True True) bump_allocator 0 100 null_handle world0)"
    using t0 hyp(4) by blast
  have b3: "backed_block 3 (array_mem_init (params4 True True) 1000 3 True null_handle world0)
     \<and> backed_block 3
          (array_alloc_init (params4 True True) bump_allocator 3 True null_handle world0)
     \<and> backed_block 3 (array_mem_vs (params4 True True) 1000 3 100 null_handle world0)
     \<and> backed_block 3
          (array_alloc_vs (params4 True True) bump_allocator 3 100 null_handle world0)
     \<and> backed_block 3 (set_mem (params4 True True) 1000 3 100 null_handle world0)
     \<and> backed_block 3 (set_alloc (params4 True True) bump_allocator 3 100 null_handle world0)"
    using t3 hyp(3,5,6,7,8,9) by blast
  have f: "\<exists>h' w'. finalize (params4 True True) bump_allocator handle1 world1
                 = Some (Inr (), h', w')
         \<and> empty_array h' \<and> size_array h' w' = Inr 0"
    using t1 world1_block[of True True] hyp(6) by blast
  show ?thesis
    using hyp(1-8) e z z0 b3 f world1_block[of True True] by blast
qed

section \<open>Indexed access\<close>

lemma objs_at_update:
  "objs_at hp p s xs \<Longrightarrow> j < length xs \<Longrightarrow> 0 < s
     \<Longrightarrow> objs_at (hp(p + j * s \<mapsto> Obj v)) p s (xs[j := v])"
proof (induction xs arbitrary: p j)
  case Nil
  then show ?case by simp
next
  case (Cons x xs)
  show ?case
  proof (cases j)
    case 0
    have "objs_at (hp(p \<mapsto> Obj v)) (p + s) s xs"
      by (rule objs_at_frame[of hp]) (use Cons.prems in auto)
    then show ?thesis using 0 by (simp add: fun_upd_def)
  next
    case (Suc k)
    have "objs_at (hp(p + s + k * s \<mapsto> Obj v)) (p + s) s (xs[k := v])"
      using Cons.prems Suc by (intro Cons.IH) simp_all
    then show ?thesis using Suc Cons.prems by (simp add: add.assoc fun_upd_def)
  qed
qed

lemma word_less_length:
  "n < 2 ^ 64 \<Longrightarrow> (idx < (word_of_nat n :: size_t)) = (unat idx < n)"
  by (simp add: word_less_nat_alt unat_of_nat_size_t)

lemma index_ptr_block:
  assumes "m_data h + length xs * sizeof_T c \<le> 2 ^ 64" "0 < sizeof_T c" "unat idx < length xs"
  shows "index_ptr (m_data h) idx (sizeof_T c) = m_data h + unat idx * sizeof_T c"
proof -
  have "m_data h + unat idx * sizeof_T c < m_data h + length xs * sizeof_T c"
    using assms(2,3) by simp
  then have "m_data h + unat idx * sizeof_T c < 2 ^ 64"
    using assms(1) by linarith
  then show ?thesis by (simp add: index_ptr_def)
qed

lemma subscript_block:
  "block_at c w h xs \<Longrightarrow> m_data h + length xs * sizeof_T c \<le> 2 ^ 64 \<Longrightarrow> 0 < sizeof_T c
     \<Longrightarrow> unat idx < length xs
     \<Longrightarrow> subscript c h idx w = Inr (m_data h + unat idx * sizeof_T c)"
  by (simp add: subscript_def size_array_block index_ptr_block,
      simp add: block_at_def word_less_length)

text \<open>
  C5: on a block holding \<open>xs\<close> (lying in the 64-bit address space), reading index
  \<open>idx < size()\<close> returns the element at that position, and writing there gives the block
  with that position updated (so later reads return the written value). In a debug build
  an index \<open>idx \<ge> size()\<close> fails the assertion, on any handle. A release build checks
  nothing: the access goes to the address \<^verbatim>\<open>m_data + idx * sizeof(T)\<close> taken modulo
  \<open>2^64\<close>, whatever it holds.
\<close>

theorem subscript_contract:
  fixes w :: "('a, 's) world"
  shows "(block_at c w h xs \<and> m_data h + length xs * sizeof_T c \<le> 2 ^ 64 \<and> 0 < sizeof_T c
            \<and> unat idx < length xs \<longrightarrow>
            read_at c h idx w = Inr (xs ! unat idx)
            \<and> (\<exists>w'. write_at c h idx v w = Inr w' \<and> block_at c w' h (xs[unat idx := v])))
     \<and> (DEBUG c \<and> size_array h w = Inr n \<and> \<not> idx < n \<longrightarrow>
            subscript c h idx w = Inl AssertionViolation
            \<and> read_at c h idx w = Inl AssertionViolation
            \<and> write_at c h idx v w = Inl AssertionViolation)
     \<and> (\<not> DEBUG c \<longrightarrow>
            subscript c h idx w = Inr ((m_data h + unat idx * sizeof_T c) mod 2 ^ 64)
            \<and> read_at c h idx w = load w ((m_data h + unat idx * sizeof_T c) mod 2 ^ 64)
            \<and> write_at c h idx v w = store w ((m_data h + unat idx * sizeof_T c) mod 2 ^ 64) v)"
proof -
  have rd: "read_at c h idx w = Inr (xs ! unat idx)"
    if "block_at c w h xs" "m_data h + length xs * sizeof_T c \<le> 2 ^ 64" "0 < sizeof_T c"
      "unat idx < length xs"
    using that objs_at_nth[of "heap w" "m_data h" "sizeof_T c" xs "unat idx"]
    by (simp add: read_at_def subscript_block load_def) (simp add: block_at_def)
  have wr: "\<exists>w'. write_at c h idx v w = Inr w' \<and> block_at c w' h (xs[unat idx := v])"
    if b: "block_at c w h xs" and sp: "m_data h + length xs * sizeof_T c \<le> 2 ^ 64"
      and s: "0 < sizeof_T c" and i: "unat idx < length xs"
  proof -
    let ?p = "m_data h + unat idx * sizeof_T c"
    let ?w' = "w\<lparr>heap := (heap w)(?p \<mapsto> Obj v)\<rparr>"
    have objs: "objs_at (heap w) (m_data h) (sizeof_T c) xs" using b by (simp add: block_at_def)
    have live: "heap w ?p = Some (Obj (xs ! unat idx))" by (rule objs_at_nth[OF objs i])
    have run: "write_at c h idx v w = Inr ?w'"
      by (simp add: write_at_def subscript_block[OF b sp s i] store_def live)
    have "objs_at (heap ?w') (m_data h) (sizeof_T c) (xs[unat idx := v])"
      using objs_at_update[OF objs i s] by simp
    moreover have "m_data h - sizeof_size_t \<noteq> ?p"
      using b unfolding block_at_def sizeof_size_t_def by linarith
    ultimately have "block_at c ?w' h (xs[unat idx := v])"
      using b by (simp add: block_at_def)
    then show ?thesis using run by blast
  qed
  have oob: "subscript c h idx w = Inl AssertionViolation
            \<and> read_at c h idx w = Inl AssertionViolation
            \<and> write_at c h idx v w = Inl AssertionViolation"
    if "DEBUG c" "size_array h w = Inr n" "\<not> idx < n"
    using that by (simp add: subscript_def read_at_def write_at_def)
  have rel: "\<not> DEBUG c \<longrightarrow>
            subscript c h idx w = Inr ((m_data h + unat idx * sizeof_T c) mod 2 ^ 64)
            \<and> read_at c h idx w = load w ((m_data h + unat idx * sizeof_T c) mod 2 ^ 64)
            \<and> write_at c h idx v w = store w ((m_data h + unat idx * sizeof_T c) mod 2 ^ 64) v"
    by (simp add: subscript_def read_at_def write_at_def index_ptr_def)
  show ?thesis using rd wr oob rel by blast
qed

theorem subscript_contract_witness:
  "block_at (params4 True True) world1 handle1 [10, 20, 30]
   \<and> m_data handle1 + length [10, 20, 30 :: nat] * sizeof_T (params4 True True) \<le> 2 ^ 64
   \<and> 0 < sizeof_T (params4 True True)
   \<and> unat (1 :: size_t) < length [10, 20, 30 :: nat]
   \<and> DEBUG (params4 True True)
   \<and> size_array handle1 world1 = Inr 3 \<and> \<not> (3 :: size_t) < 3
   \<and> read_at (params4 True True) handle1 1 world1 = Inr 20
   \<and> (\<exists>w'. write_at (params4 True True) handle1 1 7 world1 = Inr w'
         \<and> block_at (params4 True True) w' handle1 [10, 7, 30])
   \<and> subscript (params4 True True) handle1 3 world1 = Inl AssertionViolation
   \<and> read_at (params4 True True) handle1 3 world1 = Inl AssertionViolation
   \<and> \<not> DEBUG (params4 True False)
   \<and> subscript (params4 True False) handle1 1 world1 = Inr 212
   \<and> read_at (params4 True False) handle1 1 world1 = Inr 20"
proof -
  have sz: "size_array handle1 world1 = Inr 3"
    using size_array_block[OF world1_block] by simp
  have sp: "m_data handle1 + length [10, 20, 30 :: nat] * 4 \<le> 2 ^ 64"
    by (simp add: handle1_def)
  have ld: "load world1 212 = Inr 20" "m_data handle1 = 208"
    by (simp_all add: load_def world1_def handle1_def)
  have dbg: "read_at (params4 True True) handle1 1 world1 = Inr 20
     \<and> (\<exists>w'. write_at (params4 True True) handle1 1 7 world1 = Inr w'
           \<and> block_at (params4 True True) w' handle1 [10, 7, 30])"
    using subscript_contract [of "params4 True True" world1 handle1 "[10, 20, 30]" 1 7 3,
        THEN conjunct1] world1_block[of True True] sp
    by (simp add: params4_def)
  have oob: "subscript (params4 True True) handle1 3 world1 = Inl AssertionViolation
     \<and> read_at (params4 True True) handle1 3 world1 = Inl AssertionViolation"
    using subscript_contract [of "params4 True True" world1 handle1 "[10, 20, 30]" 3 7 3,
        THEN conjunct2, THEN conjunct1] sz
    by (simp add: params4_def)
  have rel: "subscript (params4 True False) handle1 1 world1 = Inr 212
     \<and> read_at (params4 True False) handle1 1 world1 = Inr 20"
    using subscript_contract [of "params4 True False" world1 handle1 "[10, 20, 30]" 1 7 3,
        THEN conjunct2, THEN conjunct2] ld
    by (simp add: params4_def)
  show ?thesis
    using dbg oob rel sz sp world1_block[of True True]
    by (simp add: params4_def)
qed

text \<open>
  In a release build the index \<open>2^62\<close> on the three 4-byte elements of the block at 208
  is far out of range, yet its byte offset is \<open>2^64\<close>: the access wraps around and
  silently reads element 0.
\<close>

theorem subscript_contract_counterexample:
  "\<not> DEBUG (params4 True False)
   \<and> block_at (params4 True False) world1 handle1 [10, 20, 30]
   \<and> size_array handle1 world1 = Inr 3 \<and> \<not> (2 ^ 62 :: size_t) < 3
   \<and> subscript (params4 True False) handle1 (2 ^ 62) world1 = Inr 208
   \<and> subscript (params4 True False) handle1 0 world1 = Inr 208
   \<and> read_at (params4 True False) handle1 (2 ^ 62) world1 = Inr 10"
  by (simp add: subscript_def read_at_def index_ptr_def load_def size_array_def ptr_add_def
      SIZE_IDX_def sizeof_size_t_def block_at_def params4_def world1_def handle1_def)

section \<open>The destructor\<close>

lemma destroy_loop_effect:
  fixes w :: "('a, 's) world"
  assumes run: "destroy_loop c it e w = Some y"
  shows "alloc_state (snd y) = alloc_state w
       \<and> (\<exists>evs. trace (snd y) = trace w @ evs \<and> (\<forall>ev\<in>set evs. \<exists>p v. ev = Destruct p v))
       \<and> (\<forall>a n. heap w a = Some (Hdr n) \<longrightarrow> heap (snd y) a = Some (Hdr n))"
proof (rule destroy_loop.raw_induct
    [where P = "\<lambda>c' it' e' w' y'. alloc_state (snd y') = alloc_state w'
       \<and> (\<exists>evs. trace (snd y') = trace w' @ evs \<and> (\<forall>ev\<in>set evs. \<exists>p v. ev = Destruct p v))
       \<and> (\<forall>a n. heap w' a = Some (Hdr n) \<longrightarrow> heap (snd y') a = Some (Hdr n))",
     OF _ run])
  fix loop :: "'a params \<Rightarrow> addr \<Rightarrow> addr \<Rightarrow> ('a, 's) world \<Rightarrow> ('a, 's) step"
    and c1 i1 e1 and w1 :: "('a, 's) world" and y1
  assume IH: "\<And>c' it' e' w' y'. loop c' it' e' w' = Some y' \<Longrightarrow>
       alloc_state (snd y') = alloc_state w'
       \<and> (\<exists>evs. trace (snd y') = trace w' @ evs \<and> (\<forall>ev\<in>set evs. \<exists>p v. ev = Destruct p v))
       \<and> (\<forall>a n. heap w' a = Some (Hdr n) \<longrightarrow> heap (snd y') a = Some (Hdr n))"
    and body: "(if i1 \<noteq> e1 then
        (case heap w1 i1 of
           None \<Rightarrow> Some (Inl Fault, w1)
         | Some (Hdr word) \<Rightarrow> Some (Inl Fault, w1)
         | Some (Obj v) \<Rightarrow>
             loop c1 (i1 + sizeof_T c1) e1
               (w1\<lparr>heap := (heap w1)(i1 := None), trace := trace w1 @ [Destruct i1 v]\<rparr>))
      else Some (Inr (), w1)) = Some y1"
  show "alloc_state (snd y1) = alloc_state w1
       \<and> (\<exists>evs. trace (snd y1) = trace w1 @ evs \<and> (\<forall>ev\<in>set evs. \<exists>p v. ev = Destruct p v))
       \<and> (\<forall>a n. heap w1 a = Some (Hdr n) \<longrightarrow> heap (snd y1) a = Some (Hdr n))"
  proof (cases "i1 \<noteq> e1 \<and> (\<exists>v. heap w1 i1 = Some (Obj v))")
    case False
    then have "snd y1 = w1"
      using body by (auto split: if_splits option.splits cell.splits)
    then show ?thesis by (intro conjI exI[of _ "[]"]) simp_all
  next
    case True
    then obtain v where v: "heap w1 i1 = Some (Obj v)" and ne: "i1 \<noteq> e1" by blast
    let ?w2 = "w1\<lparr>heap := (heap w1)(i1 := None), trace := trace w1 @ [Destruct i1 v]\<rparr>"
    have "loop c1 (i1 + sizeof_T c1) e1 ?w2 = Some y1"
      using body v ne by simp
    from IH[OF this] obtain evs where
      al: "alloc_state (snd y1) = alloc_state ?w2"
      and tr: "trace (snd y1) = trace ?w2 @ evs" "\<forall>ev\<in>set evs. \<exists>p v. ev = Destruct p v"
      and hp: "\<forall>a n. heap ?w2 a = Some (Hdr n) \<longrightarrow> heap (snd y1) a = Some (Hdr n)"
      by blast
    have t1: "trace (snd y1) = trace w1 @ (Destruct i1 v # evs)" using tr(1) by simp
    have t2: "\<forall>ev\<in>set (Destruct i1 v # evs). \<exists>p v. ev = Destruct p v"
      using tr(2) by simp
    have t3: "\<forall>a n. heap w1 a = Some (Hdr n) \<longrightarrow> heap (snd y1) a = Some (Hdr n)"
    proof (intro allI impI)
      fix a n assume a: "heap w1 a = Some (Hdr n)"
      then have "a \<noteq> i1" using v by auto
      then have "heap ?w2 a = Some (Hdr n)" using a by simp
      then show "heap (snd y1) a = Some (Hdr n)" using hp by blast
    qed
    have t4: "alloc_state (snd y1) = alloc_state w1" using al by simp
    show ?thesis using t1 t2 t3 t4 by blast
  qed
qed

text \<open>
  C6: the destructor does nothing at all unless \<^verbatim>\<open>CallDestructors\<close> is set and the handle
  is non-empty; on a block with \<^verbatim>\<open>CallDestructors\<close> set it runs the destructor of each
  element, in order. However it ends, it leaves the handle as it was, does not touch the
  allocator, records nothing but destructor calls, and leaves every stored header in
  place, so that \<^verbatim>\<open>size()\<close> still reads the same count.
\<close>

theorem dtor_frame:
  fixes w :: "('a, 's) world"
  shows "(\<not> (CallDestructors c \<and> \<not> empty_array h) \<longrightarrow> array_dtor c h w = Some (Inr (), h, w))
     \<and> (CallDestructors c \<and> block_at c w h xs \<and> 0 < sizeof_T c \<longrightarrow>
          (\<exists>w'. array_dtor c h w = Some (Inr (), h, w')
             \<and> trace w' = trace w
                  @ map (\<lambda>i. Destruct (m_data h + i * sizeof_T c) (xs ! i)) [0..<length xs]
             \<and> alloc_state w' = alloc_state w
             \<and> \<not> empty_array h
             \<and> size_array h w' = size_array h w))
     \<and> (\<forall>r h' w'. array_dtor c h w = Some (r, h', w') \<longrightarrow>
          h' = h \<and> alloc_state w' = alloc_state w
          \<and> (\<exists>evs. trace w' = trace w @ evs \<and> (\<forall>ev\<in>set evs. \<exists>p v. ev = Destruct p v))
          \<and> (\<forall>a n. heap w a = Some (Hdr n) \<longrightarrow> heap w' a = Some (Hdr n)))"
proof -
  have a: "\<not> (CallDestructors c \<and> \<not> empty_array h) \<longrightarrow> array_dtor c h w = Some (Inr (), h, w)"
    by (auto simp: array_dtor_def empty_array_def)
  have b: "\<exists>w'. array_dtor c h w = Some (Inr (), h, w')
             \<and> trace w' = trace w
                  @ map (\<lambda>i. Destruct (m_data h + i * sizeof_T c) (xs ! i)) [0..<length xs]
             \<and> alloc_state w' = alloc_state w
             \<and> \<not> empty_array h
             \<and> size_array h w' = size_array h w"
    if cd: "CallDestructors c" and blk: "block_at c w h xs" and s: "0 < sizeof_T c"
  proof -
    have nn: "m_data h \<noteq> 0" by (rule block_at_nonnull[OF blk])
    from destroy_elements_block[OF blk s] obtain w' where
      run: "destroy_elements c h w = Some (Inr (), w')"
      and al: "alloc_state w' = alloc_state w"
      and tr: "trace w' = trace w @ destruct_events (m_data h) (sizeof_T c) xs"
      and frame: "\<forall>a. a < m_data h \<or> m_data h + length xs * sizeof_T c \<le> a
                    \<longrightarrow> heap w' a = heap w a"
      by blast
    have "heap w' (m_data h - sizeof_size_t) = heap w (m_data h - sizeof_size_t)"
      using frame nn by (simp add: sizeof_size_t_def)
    then have sz: "size_array h w' = size_array h w"
      using blk by (simp add: size_array_def SIZE_IDX_def ptr_add_header block_at_def)
    have "array_dtor c h w = Some (Inr (), h, w')"
      using cd nn run by (simp add: array_dtor_def lift_step_def)
    then show ?thesis using al tr sz nn by (simp add: destruct_events_map empty_array_def)
  qed
  have g: "h' = h \<and> alloc_state w' = alloc_state w
          \<and> (\<exists>evs. trace w' = trace w @ evs \<and> (\<forall>ev\<in>set evs. \<exists>p v. ev = Destruct p v))
          \<and> (\<forall>a n. heap w a = Some (Hdr n) \<longrightarrow> heap w' a = Some (Hdr n))"
    if run: "array_dtor c h w = Some (r, h', w')" for r h' w'
  proof (cases "m_data h \<noteq> 0 \<and> CallDestructors c")
    case False
    then have "h' = h \<and> w' = w" using run by (auto simp: array_dtor_def)
    then show ?thesis by (intro conjI exI[of _ "[]"]) simp_all
  next
    case True
    then have "lift_step h (destroy_elements c h w) = Some (r, h', w')"
      using run by (simp add: array_dtor_def)
    then have h: "h' = h" and d: "destroy_elements c h w = Some (r, w')"
      by (auto simp: lift_step_def split: option.splits)
    show ?thesis
    proof (cases "end_array c h w")
      case (Inl err)
      then have "w' = w" using d by (simp add: destroy_elements_def)
      then show ?thesis using h by (intro conjI exI[of _ "[]"]) simp_all
    next
      case (Inr e)
      then have "destroy_loop c (begin_array h) e w = Some (r, w')"
        using d by (simp add: destroy_elements_def)
      from destroy_loop_effect[OF this] show ?thesis using h by simp
    qed
  qed
  show ?thesis using a b g by blast
qed

theorem dtor_frame_witness:
  "CallDestructors (params4 True False) \<and> \<not> empty_array handle1
   \<and> block_at (params4 True False) world1 handle1 [10, 20, 30]
   \<and> 0 < sizeof_T (params4 True False)
   \<and> (\<exists>w'. array_dtor (params4 True False) handle1 world1 = Some (Inr (), handle1, w')
        \<and> trace w' = [Destruct 208 10, Destruct 212 20, Destruct 216 30]
        \<and> alloc_state w' = alloc_state world1
        \<and> size_array handle1 w' = Inr 3)
   \<and> array_dtor (params4 False False) handle1 world1 = Some (Inr (), handle1, world1)
   \<and> array_dtor (params4 True False) null_handle world1 = Some (Inr (), null_handle, world1)"
proof -
  have sz: "size_array handle1 world1 = Inr 3"
    using size_array_block[OF world1_block] by simp
  have t: "trace world1 = []" and h: "m_data handle1 = 208"
    by (simp_all add: world1_def handle1_def)
  have ne: "\<not> empty_array handle1" and n: "empty_array null_handle"
    by (simp_all add: handle1_def null_handle_def empty_array_def)
  have p: "CallDestructors (params4 True False)" "0 < sizeof_T (params4 True False)"
    "\<not> CallDestructors (params4 False False)" "sizeof_T (params4 True False) = 4"
    by (simp_all add: params4_def)
  have m: "map (\<lambda>i. Destruct (208 + i * 4) ([10, 20, 30 :: nat] ! i)) [0..<length [10, 20, 30 :: nat]]
           = [Destruct 208 10, Destruct 212 20, Destruct 216 30]"
    by (simp add: upt_rec)
  have a: "\<exists>w'. array_dtor (params4 True False) handle1 world1 = Some (Inr (), handle1, w')
        \<and> trace w' = [Destruct 208 10, Destruct 212 20, Destruct 216 30]
        \<and> alloc_state w' = alloc_state world1
        \<and> size_array handle1 w' = Inr 3"
    using dtor_frame [of "params4 True False" handle1 world1 "[10, 20, 30]",
        THEN conjunct2, THEN conjunct1, rule_format, OF conjI[OF p(1) conjI[OF world1_block p(2)]]]
    unfolding t h sz p(4) m append_Nil by blast
  have b: "array_dtor (params4 False False) handle1 world1 = Some (Inr (), handle1, world1)"
    using dtor_frame [of "params4 False False" handle1 world1 "[]", THEN conjunct1] p(3)
    by blast
  have c: "array_dtor (params4 True False) null_handle world1 = Some (Inr (), null_handle, world1)"
    using dtor_frame [of "params4 True False" null_handle world1 "[]", THEN conjunct1] n
    by blast
  show ?thesis using a b c p(1,2) ne world1_block[of True False] by blast
qed

section \<open>Releasing an empty handle, creating twice\<close>

text \<open>
  C7: \<^verbatim>\<open>finalize\<close> on an empty handle returns at once: handle, memory, allocator state and
  trace are unchanged (no destructor call, no \<^verbatim>\<open>deallocate\<close>). In particular a second
  \<^verbatim>\<open>finalize\<close> after a successful one changes nothing.
\<close>

theorem finalize_empty_noop:
  "(empty_array h \<longrightarrow> finalize c a h w = Some (Inr (), h, w))
   \<and> finalize c a (array_default h0) w = Some (Inr (), array_default h0, w)
   \<and> (\<forall>h' w'. finalize c a h w = Some (Inr (), h', w')
         \<longrightarrow> finalize c a h' w' = Some (Inr (), h', w'))"
  by (auto simp: finalize_def empty_array_def array_default_def
      split: if_splits option.splits sum.splits prod.splits)

theorem finalize_empty_noop_witness:
  "empty_array null_handle
   \<and> finalize (params4 True True) bump_allocator null_handle world1
       = Some (Inr (), null_handle, world1)"
  using finalize_empty_noop [of null_handle "params4 True True" bump_allocator world1]
  by (simp add: null_handle_def empty_array_def)

text \<open>
  C8: in a debug build both \<^verbatim>\<open>set\<close> overloads assert \<^verbatim>\<open>m_data == 0\<close> before anything
  else: on a handle that already has a block they stop with the assertion failure, having
  written nothing and called no allocator. The constructors that create through \<^verbatim>\<open>set\<close>
  clear \<^verbatim>\<open>m_data\<close> first in debug builds, so there the assertion holds.
\<close>

theorem set_twice_asserts:
  "(DEBUG c \<and> \<not> empty_array h \<longrightarrow>
      set_mem c mem sz vs h w = Some (Inl AssertionViolation, h, w)
      \<and> set_alloc c a sz vs h w = Some (Inl AssertionViolation, h, w))
   \<and> (DEBUG c \<longrightarrow> empty_array (DEBUG_CODE_clear c h0)
        \<and> array_mem_vs c mem sz vs h0 w = set_mem c mem sz vs (array_default h0) w
        \<and> array_alloc_vs c a sz vs h0 w = set_alloc c a sz vs (array_default h0) w)"
  by (simp add: set_mem_def set_alloc_def empty_array_def DEBUG_CODE_clear_def
      array_mem_vs_def array_alloc_vs_def array_default_def)

theorem set_twice_asserts_witness:
  "DEBUG (params4 True True) \<and> \<not> empty_array handle1
   \<and> set_mem (params4 True True) 400 3 100 handle1 world1
       = Some (Inl AssertionViolation, handle1, world1)
   \<and> set_alloc (params4 True True) bump_allocator 3 100 handle1 world1
       = Some (Inl AssertionViolation, handle1, world1)"
  using set_twice_asserts [of "params4 True True" handle1 400 3 100 world1 bump_allocator]
  by (simp add: params4_def handle1_def empty_array_def)

section \<open>Allocation comes first\<close>





section \<open>The subclasses\<close>

text \<open>
  C10: every constructor of \<^verbatim>\<open>sarray<T>\<close> and \<^verbatim>\<open>ptr_array<T>\<close> is the constructor of
  \<^verbatim>\<open>array<T, false>\<close> (\<^verbatim>\<open>array<T*, false>\<close>) on the same arguments, and destructor and
  \<^verbatim>\<open>finalize\<close> are those of that base class. Their destructor changes nothing, and their
  \<^verbatim>\<open>finalize\<close> leaves memory as it is (no element is destroyed, no stored pointer is
  followed) and records at most the \<^verbatim>\<open>deallocate\<close> call.
\<close>

theorem subclasses_are_base_false:
  fixes w :: "('a, 's) world" and wp :: "(addr, 's) world"
  shows "sarray_default h0 = array_default h0
     \<and> sarray_mem_vs c mem sz vs h0 w = array_mem_vs (c\<lparr>CallDestructors := False\<rparr>) mem sz vs h0 w
     \<and> sarray_alloc_vs c a sz vs h0 w = array_alloc_vs (c\<lparr>CallDestructors := False\<rparr>) a sz vs h0 w
     \<and> sarray_mem_init c mem sz b h0 w = array_mem_init (c\<lparr>CallDestructors := False\<rparr>) mem sz b h0 w
     \<and> sarray_alloc_init c a sz b h0 w
         = array_alloc_init (c\<lparr>CallDestructors := False\<rparr>) a sz b h0 w
     \<and> sarray_dtor c h w = array_dtor (c\<lparr>CallDestructors := False\<rparr>) h w
     \<and> sarray_finalize c a h w = finalize (c\<lparr>CallDestructors := False\<rparr>) a h w
     \<and> ptr_array_default h0 = array_default h0
     \<and> ptr_array_mem_vs cp mem sz vs h0 wp
         = array_mem_vs (cp\<lparr>CallDestructors := False\<rparr>) mem sz vs h0 wp
     \<and> ptr_array_alloc_vs cp a sz vs h0 wp
         = array_alloc_vs (cp\<lparr>CallDestructors := False\<rparr>) a sz vs h0 wp
     \<and> ptr_array_mem_init cp mem sz b h0 wp
         = array_mem_init (cp\<lparr>CallDestructors := False\<rparr>) mem sz b h0 wp
     \<and> ptr_array_alloc_init cp a sz b h0 wp
         = array_alloc_init (cp\<lparr>CallDestructors := False\<rparr>) a sz b h0 wp
     \<and> ptr_array_dtor cp h wp = array_dtor (cp\<lparr>CallDestructors := False\<rparr>) h wp
     \<and> ptr_array_finalize cp a h wp = finalize (cp\<lparr>CallDestructors := False\<rparr>) a h wp
     \<and> sarray_dtor c h w = Some (Inr (), h, w)
     \<and> ptr_array_dtor cp h wp = Some (Inr (), h, wp)
     \<and> (\<forall>r h' w'. sarray_finalize c a h w = Some (r, h', w')
           \<longrightarrow> heap w' = heap w
               \<and> (trace w' = trace w \<or> (\<exists>k p. trace w' = trace w @ [Deallocate k p])))
     \<and> (\<forall>r h' w'. ptr_array_finalize cp a h wp = Some (r, h', w')
           \<longrightarrow> heap w' = heap wp
               \<and> (trace w' = trace wp \<or> (\<exists>k p. trace w' = trace wp @ [Deallocate k p])))"
  by (auto simp: sarray_default_def sarray_mem_vs_def sarray_alloc_vs_def sarray_mem_init_def
      sarray_alloc_init_def sarray_dtor_def sarray_finalize_def ptr_array_default_def
      ptr_array_mem_vs_def ptr_array_alloc_vs_def ptr_array_mem_init_def
      ptr_array_alloc_init_def ptr_array_dtor_def ptr_array_finalize_def base_false_def
      array_dtor_def finalize_def split: if_splits sum.splits option.splits)

theorem subclasses_are_base_false_witness:
  "sarray_dtor (params4 True False) handle1 world1 = Some (Inr (), handle1, world1)
   \<and> (\<exists>h' w'. sarray_finalize (params4 True False) bump_allocator handle1 world1
                 = Some (Inr (), h', w')
         \<and> heap w' = heap world1 \<and> trace w' = [Deallocate 3 200])
   \<and> ptr_array_dtor params8 handle2 world2 = Some (Inr (), handle2, world2)
   \<and> (\<exists>h' w'. ptr_array_finalize params8 bump_allocator handle2 world2
                 = Some (Inr (), h', w')
         \<and> heap w' = heap world2 \<and> trace w' = [Deallocate 3 300])"
proof -
  note s = subclasses_are_base_false [of handle1 "params4 True False" 0 0 0 world1
      bump_allocator True handle1 params8 world2]
  note p = subclasses_are_base_false [of handle2 "params4 True False" 0 0 0 world1
      bump_allocator True handle2 params8 world2]
  have c4: "(params4 True False)\<lparr>CallDestructors := False\<rparr> = params4 False False"
    by (simp add: params4_def)
  have c8: "sizeof_T (params8\<lparr>CallDestructors := False\<rparr>) = 8"
    "\<not> CallDestructors (params8\<lparr>CallDestructors := False\<rparr>)"
    "\<not> CallDestructors (params4 False False)" "0 < sizeof_T (params4 False False)"
    by (simp_all add: params8_def params4_def)
  have t: "trace world1 = []" "trace world2 = []" "m_data handle1 = 208" "m_data handle2 = 308"
    by (simp_all add: world1_def world2_def handle1_def handle2_def)
  from finalize_block[OF world1_block c8(4), of bump_allocator]
  obtain w1 where
    f1: "finalize (params4 False False) bump_allocator handle1 world1
           = Some (Inr (), handle1\<lparr>m_data := 0\<rparr>, w1)"
    and t1: "trace w1 = [Deallocate 3 200]"
    using c8(3) t by (auto simp: sizeof_size_t_def)
  from finalize_block[OF world2_block[OF c8(1)], of bump_allocator]
  obtain w2 where
    f2: "finalize (params8\<lparr>CallDestructors := False\<rparr>) bump_allocator handle2 world2
           = Some (Inr (), handle2\<lparr>m_data := 0\<rparr>, w2)"
    and t2: "trace w2 = [Deallocate 3 300]"
    using c8(1,2) t by (auto simp: sizeof_size_t_def)
  have e1: "sarray_finalize (params4 True False) bump_allocator handle1 world1
           = Some (Inr (), handle1\<lparr>m_data := 0\<rparr>, w1)"
    using s f1 c4 by simp
  have e2: "ptr_array_finalize params8 bump_allocator handle2 world2
           = Some (Inr (), handle2\<lparr>m_data := 0\<rparr>, w2)"
    using p f2 by simp
  have h1: "heap w1 = heap world1" using s e1 by blast
  have h2: "heap w2 = heap world2" using p e2 by blast
  have d1: "sarray_dtor (params4 True False) handle1 world1 = Some (Inr (), handle1, world1)"
    using s by blast
  have d2: "ptr_array_dtor params8 handle2 world2 = Some (Inr (), handle2, world2)"
    using p by blast
  show ?thesis using d1 d2 e1 e2 h1 h2 t1 t2 by blast
qed

end
